theory Spec2Isabelle
  imports Complex_Main
begin

section \<open>Python values used by the sources\<close>

text \<open>
  A Python \<open>str\<close> is a sequence of Unicode code points, and the sources test
  \<open>ord(c) < 256\<close>, so a string is a list of code points rather than a list of
  8-bit characters. \<open>ustr\<close> turns an ASCII literal into such a string.
\<close>

type_synonym ustring = "nat list"

definition ustr :: "string \<Rightarrow> ustring" where
  "ustr s = map of_char s"

text \<open>
  The exceptions the modelled code can raise. \<open>CorpusFormatError\<close> and
  \<open>ShapeMismatchError\<close> are the two names the specification uses for failures; no
  statement of the sources raises either of them.
\<close>

datatype error =
    TypeError | ValueError | StopIteration | FileNotFoundError
  | AssertionError | IndexError | KeyError
  | CorpusFormatError | ShapeMismatchError

text \<open>\<open>str.isspace\<close> of one code point: the characters \<open>strip()\<close> and \<open>split()\<close> remove.\<close>

definition is_space :: "nat \<Rightarrow> bool" where
  "is_space c \<longleftrightarrow>
     (9 \<le> c \<and> c \<le> 13) \<or> (28 \<le> c \<and> c \<le> 32) \<or> c = 133 \<or> c = 160 \<or> c = 5760 \<or>
     (8192 \<le> c \<and> c \<le> 8202) \<or> c = 8232 \<or> c = 8233 \<or> c = 8239 \<or> c = 8287 \<or>
     c = 12288"

text \<open>\<open>s.strip()\<close>\<close>

definition strip :: "ustring \<Rightarrow> ustring" where
  "strip s = rev (dropWhile is_space (rev (dropWhile is_space s)))"

text \<open>
  \<open>s.split()\<close>: the maximal runs of non-space characters, in order; \<open>cur\<close> is the
  run being read.
\<close>

fun split_run :: "ustring \<Rightarrow> ustring \<Rightarrow> ustring list" where
  "split_run cur [] = (if cur = [] then [] else [cur])"
| "split_run cur (c # cs) =
     (if is_space c then (if cur = [] then split_run [] cs else cur # split_run [] cs)
      else split_run (cur @ [c]) cs)"

definition split_ws :: "ustring \<Rightarrow> ustring list" where
  "split_ws s = split_run [] s"

text \<open>
  \<open>s.split(sep)\<close> for a one-character separator: every separator ends a field, empty
  fields are kept, and the result is never empty.
\<close>

fun split_sep :: "nat \<Rightarrow> ustring \<Rightarrow> ustring \<Rightarrow> ustring list" where
  "split_sep sep cur [] = [cur]"
| "split_sep sep cur (c # cs) =
     (if c = sep then cur # split_sep sep [] cs else split_sep sep (cur @ [c]) cs)"

definition split_on :: "nat \<Rightarrow> ustring \<Rightarrow> ustring list" where
  "split_on sep s = split_sep sep [] s"

text \<open>
  \<open>int(s)\<close> on a string is the builtin of the interpreter: which strings it reads
  depends on the interpreter, on its table of the Unicode decimal digits and on its limit
  on the number of digits. The functions that call it take it as their parameter
  \<open>py_int\<close>: \<open>py_int s\<close> is \<open>Some v\<close> when \<open>int(s)\<close> returns \<open>v\<close> and \<open>None\<close> when it
  raises \<open>ValueError\<close>, the one exception \<open>int\<close> raises on a string.
\<close>

text \<open>\<open>str(n)\<close> for a length \<open>n\<close>: its decimal digits.\<close>

fun str_nat :: "nat \<Rightarrow> ustring" where
  "str_nat n = (if n < 10 then [48 + n] else str_nat (n div 10) @ [48 + n mod 10])"

declare str_nat.simps [simp del]

text \<open>
  Slices. A negative bound counts from the end, and every bound is clipped to the
  list: \<open>xs[a:b]\<close> is \<open>py_slice xs a b\<close> and \<open>xs[:b]\<close> is \<open>py_slice_to xs b\<close>.
\<close>

definition slice_bound :: "nat \<Rightarrow> int \<Rightarrow> nat" where
  "slice_bound n i = (if i < 0 then nat (max 0 (int n + i)) else min n (nat i))"

definition py_slice :: "'a list \<Rightarrow> int \<Rightarrow> int \<Rightarrow> 'a list" where
  "py_slice xs a b = drop (slice_bound (length xs) a) (take (slice_bound (length xs) b) xs)"

definition py_slice_to :: "'a list \<Rightarrow> int \<Rightarrow> 'a list" where
  "py_slice_to xs b = take (slice_bound (length xs) b) xs"

section \<open>The agreement corpora of \<open>downstream/tasks/linzen.py\<close>\<close>

subsection \<open>Raw items\<close>

record RawItem =
  sentence :: ustring
  orig_sentence :: ustring
  pos_sentence :: ustring
  subj :: ustring
  verb :: ustring
  subj_pos :: ustring
  has_rel :: ustring
  has_nsubj :: ustring
  verb_pos :: ustring
  subj_index :: ustring
  verb_index :: ustring
  n_intervening :: ustring
  last_intervening :: ustring
  n_diff_intervening :: ustring
  distance :: ustring
  max_depth :: ustring
  all_nouns :: ustring
  nouns_up_to_verb :: ustring

text \<open>
  \<open>RawItem(*fields)\<close>: the constructor of the named tuple takes exactly 18 positional
  arguments and raises \<open>TypeError\<close> on any other number.
\<close>

definition make_RawItem :: "ustring list \<Rightarrow> error + RawItem" where
  "make_RawItem fs =
     (if length fs = 18 then
        Inr \<lparr>sentence = fs ! 0, orig_sentence = fs ! 1, pos_sentence = fs ! 2,
             subj = fs ! 3, verb = fs ! 4, subj_pos = fs ! 5, has_rel = fs ! 6,
             has_nsubj = fs ! 7, verb_pos = fs ! 8, subj_index = fs ! 9,
             verb_index = fs ! 10, n_intervening = fs ! 11, last_intervening = fs ! 12,
             n_diff_intervening = fs ! 13, distance = fs ! 14, max_depth = fs ! 15,
             all_nouns = fs ! 16, nouns_up_to_verb = fs ! 17\<rparr>
      else Inl TypeError)"

subsection \<open>\<open>item_to_sva_condition\<close>\<close>

text \<open>\<open>pos_mapping.get(t, "")\<close> with \<open>pos_mapping = {"NNS": "P", "NN": "S"}\<close>.\<close>

definition pos_mapping :: "ustring \<Rightarrow> ustring" where
  "pos_mapping t =
     (if t = ustr ''NNS'' then ustr ''P'' else if t = ustr ''NN'' then ustr ''S'' else [])"

text \<open>
  The two \<open>int(...)\<close> calls are evaluated left to right inside the slice, after the
  split; either raises \<open>ValueError\<close> on a field that is no integer.
\<close>

definition item_to_sva_condition :: "(ustring \<Rightarrow> int option) \<Rightarrow> RawItem \<Rightarrow> error + ustring" where
  "item_to_sva_condition py_int item =
     (let pos_sen = split_ws (pos_sentence item) in
      case py_int (subj_index item) of
        None \<Rightarrow> Inl ValueError
      | Some si \<Rightarrow>
          (case py_int (verb_index item) of
             None \<Rightarrow> Inl ValueError
           | Some vi \<Rightarrow> Inr (concat (map pos_mapping (py_slice pos_sen (si - 1) vi)))))"

text \<open>
  The condition code in the words of the specification: keep the noun tags, in order,
  and write \<open>P\<close> for \<open>NNS\<close> and \<open>S\<close> for \<open>NN\<close>.
\<close>

definition is_noun_tag :: "ustring \<Rightarrow> bool" where
  "is_noun_tag t \<longleftrightarrow> t = ustr ''NNS'' \<or> t = ustr ''NN''"

definition noun_letter :: "ustring \<Rightarrow> nat" where
  "noun_letter t = (if t = ustr ''NNS'' then 80 else 83)"

definition spec_condition_code :: "ustring list \<Rightarrow> ustring" where
  "spec_condition_code tags = map noun_letter (filter is_noun_tag tags)"

subsection \<open>\<open>create_raw_corpora\<close>\<close>

text \<open>
  A dictionary whose order of insertion is kept is a list of pairs with distinct keys.
  \<open>d.setdefault(k, []).append(v)\<close>:
\<close>

fun setdefault_append :: "'k \<Rightarrow> 'v \<Rightarrow> ('k \<times> 'v list) list \<Rightarrow> ('k \<times> 'v list) list" where
  "setdefault_append k v [] = [(k, [v])]"
| "setdefault_append k v ((k', vs) # rest) =
     (if k' = k then (k', vs @ [v]) # rest else (k', vs) # setdefault_append k v rest)"

text \<open>\<open>RawItem(*line.strip().split("\t"))\<close>; the tab is code point 9.\<close>

definition parse_row :: "ustring \<Rightarrow> error + RawItem" where
  "parse_row line = make_RawItem (split_on 9 (strip line))"

text \<open>The loop over the lines after the header; \<open>raw\<close> is \<open>raw_corpora\<close>.\<close>

fun raw_corpora_loop ::
  "(ustring \<Rightarrow> int option) \<Rightarrow> ustring list \<Rightarrow> ustring list \<Rightarrow> (ustring \<times> RawItem list) list \<Rightarrow>
   error + (ustring \<times> RawItem list) list" where
  "raw_corpora_loop py_int subtasks [] raw = Inr raw"
| "raw_corpora_loop py_int subtasks (line # rest) raw =
     (case parse_row line of
        Inl e \<Rightarrow> Inl e
      | Inr item \<Rightarrow>
          (case item_to_sva_condition py_int item of
             Inl e \<Rightarrow> Inl e
           | Inr sva_condition \<Rightarrow>
               if sva_condition \<in> set subtasks
               then raw_corpora_loop py_int subtasks rest (setdefault_append sva_condition item raw)
               else raw_corpora_loop py_int subtasks rest raw))"

text \<open>
  The corpus file \<open>agr_50_mostcommon_10K.tsv\<close> is given by its lines, \<open>None\<close> when the
  file does not exist. \<open>next(f)\<close> raises \<open>StopIteration\<close> on a file without a line.
\<close>

definition create_raw_corpora ::
  "(ustring \<Rightarrow> int option) \<Rightarrow> ustring list option \<Rightarrow> ustring list \<Rightarrow> error + (ustring \<times> RawItem list) list" where
  "create_raw_corpora py_int corpus_file subtasks =
     (case corpus_file of
        None \<Rightarrow> Inl FileNotFoundError
      | Some [] \<Rightarrow> Inl StopIteration
      | Some (header # lines) \<Rightarrow> raw_corpora_loop py_int subtasks lines [])"

subsection \<open>\<open>item_to_example\<close> and \<open>create_corpus\<close>\<close>

text \<open>
  Modelled from the spec: \<open>Example\<close> (torchtext) and \<open>Corpus\<close> (\<open>diagnnose.corpus\<close>) are
  not among the sources. An example is the triple handed to \<open>Example.fromlist\<close>, context
  tokens, verb and opposite verb, and a corpus is the ordered sequence of its examples.
\<close>

record Example =
  sen :: "ustring list"
  token :: ustring
  wrong_token :: ustring

type_synonym Corpus = "Example list"

text \<open>
  \<open>unidecode\<close> is a function of the library of that name and a parameter here. The
  verb index is read before the table is consulted.
\<close>

definition item_to_example ::
  "(ustring \<Rightarrow> int option) \<Rightarrow> (ustring \<Rightarrow> ustring) \<Rightarrow> RawItem \<Rightarrow> (ustring \<rightharpoonup> ustring) \<Rightarrow> error + Example option" where
  "item_to_example py_int unidecode item verb_inflections =
     (let orig = (if \<not> list_all (\<lambda>c. c < 256) (orig_sentence item)
                  then unidecode (orig_sentence item) else orig_sentence item)
      in case py_int (verb_index item) of
           None \<Rightarrow> Inl ValueError
         | Some vi \<Rightarrow>
             (let subsen = py_slice_to (split_ws orig) (vi - 1) in
              case verb_inflections (verb item) of
                None \<Rightarrow> Inr None
              | Some opposite_verb \<Rightarrow>
                  Inr (Some \<lparr>sen = subsen, token = verb item, wrong_token = opposite_verb\<rparr>)))"

text \<open>The list comprehension of \<open>create_corpus\<close>: the first exception ends it.\<close>

fun examples_of ::
  "(ustring \<Rightarrow> int option) \<Rightarrow> (ustring \<Rightarrow> ustring) \<Rightarrow> (ustring \<rightharpoonup> ustring) \<Rightarrow> RawItem list \<Rightarrow>
   error + Example option list" where
  "examples_of py_int unidecode verb_inflections [] = Inr []"
| "examples_of py_int unidecode verb_inflections (item # items) =
     (case item_to_example py_int unidecode item verb_inflections of
        Inl e \<Rightarrow> Inl e
      | Inr ex \<Rightarrow>
          (case examples_of py_int unidecode verb_inflections items of
             Inl e \<Rightarrow> Inl e
           | Inr exs \<Rightarrow> Inr (ex # exs)))"

text \<open>
  \<open>filter(None, examples)\<close> keeps the examples that are not \<open>None\<close>;
  \<open>items_per_subtask\<close> is an \<open>Optional[int]\<close>.
\<close>

definition create_corpus ::
  "(ustring \<Rightarrow> int option) \<Rightarrow> (ustring \<Rightarrow> ustring) \<Rightarrow> RawItem list \<Rightarrow> (ustring \<rightharpoonup> ustring) \<Rightarrow> int option \<Rightarrow>
   error + Corpus" where
  "create_corpus py_int unidecode items verb_inflections items_per_subtask =
     (case examples_of py_int unidecode verb_inflections items of
        Inl e \<Rightarrow> Inl e
      | Inr examples \<Rightarrow>
          (let examples = List.map_filter (\<lambda>ex. ex) examples in
           Inr (case items_per_subtask of
                  None \<Rightarrow> examples
                | Some n \<Rightarrow> py_slice_to examples n)))"

subsection \<open>\<open>create_verb_inflections\<close>\<close>

text \<open>
  The loop over the lines of \<open>wiki.vocab\<close> after its first line. \<open>pos_to_token\<close> is the
  pair of its two lists, \<open>VBP\<close> first. A line that does not split into three fields
  raises \<open>ValueError\<close> in the unpacking.
\<close>

fun collect_verbs ::
  "ustring set \<Rightarrow> ustring list \<Rightarrow> ustring list \<times> ustring list \<Rightarrow>
   error + ustring list \<times> ustring list" where
  "collect_verbs model_vocab [] pos_to_token = Inr pos_to_token"
| "collect_verbs model_vocab (line # rest) (vbp, vbz) =
     (case split_ws (strip line) of
        [word, pos, other] \<Rightarrow>
          if word \<in> model_vocab \<and> pos = ustr ''VBP''
          then collect_verbs model_vocab rest (vbp @ [word], vbz)
          else if word \<in> model_vocab \<and> pos = ustr ''VBZ''
          then collect_verbs model_vocab rest (vbp, vbz @ [word])
          else collect_verbs model_vocab rest (vbp, vbz)
      | _ \<Rightarrow> Inl ValueError)"

text \<open>
  The loop over the \<open>VBZ\<close> words. \<open>plural_verb\<close> is the method of the \<open>inflect\<close> engine, a
  parameter here. The plural form is stored first, the singular form second.
\<close>

fun register_inflections ::
  "(ustring \<Rightarrow> ustring) \<Rightarrow> ustring list \<Rightarrow> ustring list \<Rightarrow> (ustring \<rightharpoonup> ustring) \<Rightarrow>
   (ustring \<rightharpoonup> ustring)" where
  "register_inflections plural_verb vbp [] verb_inflections = verb_inflections"
| "register_inflections plural_verb vbp (word # rest) verb_inflections =
     (let candidate = plural_verb word in
      if candidate \<in> set vbp
      then register_inflections plural_verb vbp rest
             (verb_inflections(candidate \<mapsto> word, word \<mapsto> candidate))
      else register_inflections plural_verb vbp rest verb_inflections)"

text \<open>
  \<open>vocab_file\<close> holds the lines of the model's vocabulary file and \<open>wiki_file\<close> those
  of \<open>wiki.vocab\<close>, \<open>None\<close> for a file that does not exist.
\<close>

definition create_verb_inflections ::
  "(ustring \<Rightarrow> ustring) \<Rightarrow> ustring list option \<Rightarrow> ustring list option \<Rightarrow>
   error + (ustring \<rightharpoonup> ustring)" where
  "create_verb_inflections plural_verb vocab_file wiki_file =
     (case vocab_file of
        None \<Rightarrow> Inl FileNotFoundError
      | Some vocab_lines \<Rightarrow>
          (let model_vocab = set (map strip vocab_lines) in
           case wiki_file of
             None \<Rightarrow> Inl FileNotFoundError
           | Some [] \<Rightarrow> Inl StopIteration
           | Some (first # lines) \<Rightarrow>
               (case collect_verbs model_vocab lines ([], []) of
                  Inl e \<Rightarrow> Inl e
                | Inr (vbp, vbz) \<Rightarrow>
                    Inr (register_inflections plural_verb vbp vbz Map.empty))))"

text \<open>
  The words the specification calls tagged and in the vocabulary: those of the lines of
  \<open>wiki.vocab\<close> that have three fields, the given tag, and a word of the model's
  vocabulary. \<open>registered\<close> holds the \<open>VBZ\<close> words whose proposed plural form is among
  the \<open>VBP\<close> words.
\<close>

fun line_word :: "ustring set \<Rightarrow> ustring \<Rightarrow> ustring list \<Rightarrow> ustring list" where
  "line_word model_vocab tag [word, pos, other] =
     (if word \<in> model_vocab \<and> pos = tag then [word] else [])"
| "line_word model_vocab tag fs = []"

definition tagged_words :: "ustring set \<Rightarrow> ustring \<Rightarrow> ustring list \<Rightarrow> ustring list" where
  "tagged_words model_vocab tag lines =
     concat (map (\<lambda>line. line_word model_vocab tag (split_ws (strip line))) lines)"

definition registered :: "(ustring \<Rightarrow> ustring) \<Rightarrow> ustring list \<Rightarrow> ustring list \<Rightarrow> ustring set" where
  "registered plural_verb vbp vbz = {w \<in> set vbz. plural_verb w \<in> set vbp}"

text \<open>
  The pairs the loop over the \<open>VBZ\<close> words writes into the table, as key and value, in
  the order in which it writes them.
\<close>

definition registrations ::
  "(ustring \<Rightarrow> ustring) \<Rightarrow> ustring list \<Rightarrow> ustring list \<Rightarrow> (ustring \<times> ustring) list" where
  "registrations plural_verb vbp vbz =
     concat (map (\<lambda>word. [(plural_verb word, word), (word, plural_verb word)])
       (filter (\<lambda>word. plural_verb word \<in> set vbp) vbz))"

subsection \<open>\<open>create_corpora\<close> and \<open>initialize\<close>\<close>

text \<open>\<open>d[k] = v\<close> and \<open>d.setdefault(k1, {})[k2] = v\<close> on dictionaries kept in order.\<close>

fun dict_set :: "'k \<Rightarrow> 'v \<Rightarrow> ('k \<times> 'v) list \<Rightarrow> ('k \<times> 'v) list" where
  "dict_set k v [] = [(k, v)]"
| "dict_set k v ((k', v') # rest) =
     (if k' = k then (k', v) # rest else (k', v') # dict_set k v rest)"

fun setdefault_set ::
  "'a \<Rightarrow> 'b \<Rightarrow> 'v \<Rightarrow> ('a \<times> ('b \<times> 'v) list) list \<Rightarrow> ('a \<times> ('b \<times> 'v) list) list" where
  "setdefault_set k1 k2 v [] = [(k1, [(k2, v)])]"
| "setdefault_set k1 k2 v ((k', inner) # rest) =
     (if k' = k1 then (k', dict_set k2 v inner) # rest
      else (k', inner) # setdefault_set k1 k2 v rest)"

type_synonym DownstreamCorpora = "(ustring \<times> (ustring \<times> Corpus) list) list"

fun corpora_loop ::
  "(ustring \<Rightarrow> int option) \<Rightarrow> (ustring \<Rightarrow> ustring) \<Rightarrow> (ustring \<rightharpoonup> ustring) \<Rightarrow> int option \<Rightarrow>
   (ustring \<times> RawItem list) list \<Rightarrow> DownstreamCorpora \<Rightarrow> error + DownstreamCorpora" where
  "corpora_loop py_int unidecode verb_inflections items_per_subtask [] corpora = Inr corpora"
| "corpora_loop py_int unidecode verb_inflections items_per_subtask ((condition, items) # rest) corpora =
     (case create_corpus py_int unidecode items verb_inflections items_per_subtask of
        Inl e \<Rightarrow> Inl e
      | Inr corpus \<Rightarrow>
          (let n_attractors = str_nat (length condition) in
           corpora_loop py_int unidecode verb_inflections items_per_subtask rest
             (setdefault_set n_attractors condition corpus corpora)))"

definition create_corpora ::
  "(ustring \<Rightarrow> int option) \<Rightarrow> (ustring \<Rightarrow> ustring) \<Rightarrow> (ustring \<Rightarrow> ustring) \<Rightarrow> ustring list option \<Rightarrow>
   ustring list option \<Rightarrow> ustring list option \<Rightarrow> ustring list \<Rightarrow> int option \<Rightarrow>
   error + DownstreamCorpora" where
  "create_corpora py_int plural_verb unidecode vocab_file corpus_file wiki_file subtasks
       items_per_subtask =
     (case create_raw_corpora py_int corpus_file subtasks of
        Inl e \<Rightarrow> Inl e
      | Inr raw_corpora \<Rightarrow>
          (case create_verb_inflections plural_verb vocab_file wiki_file of
             Inl e \<Rightarrow> Inl e
           | Inr verb_inflections \<Rightarrow>
               corpora_loop py_int unidecode verb_inflections items_per_subtask raw_corpora []))"

text \<open>
  An argument with a default value is either left out or passed. \<open>subtasks or [...]\<close>
  takes the default list for \<open>None\<close> and for the empty list.
\<close>

datatype 'a argument = Omitted | Passed 'a

definition default_subtasks :: "ustring list" where
  "default_subtasks =
     map ustr [''SS'', ''SP'', ''PS'', ''PP'', ''SPP'', ''PSS'', ''SPPP'', ''PSSS'']"

definition initialize ::
  "(ustring \<Rightarrow> int option) \<Rightarrow> (ustring \<Rightarrow> ustring) \<Rightarrow> (ustring \<Rightarrow> ustring) \<Rightarrow> ustring list option \<Rightarrow>
   ustring list option \<Rightarrow> ustring list option \<Rightarrow> ustring list option \<Rightarrow>
   int option argument \<Rightarrow> error + DownstreamCorpora" where
  "initialize py_int plural_verb unidecode vocab_file corpus_file wiki_file subtasks
       items_per_subtask =
     (let subtasks = (case subtasks of
                        None \<Rightarrow> default_subtasks
                      | Some [] \<Rightarrow> default_subtasks
                      | Some (s # ss) \<Rightarrow> s # ss);
          items_per_subtask = (case items_per_subtask of
                                 Omitted \<Rightarrow> Some 1000
                               | Passed n \<Rightarrow> n)
      in create_corpora py_int plural_verb unidecode vocab_file corpus_file wiki_file subtasks
           items_per_subtask)"

subsection \<open>The retained items of a condition\<close>

text \<open>
  The items of the rows that have 18 fields, in the order of the file, and among them
  those that \<open>item_to_sva_condition\<close> maps to a given condition.
\<close>

definition rows :: "ustring list \<Rightarrow> RawItem list" where
  "rows lines =
     List.map_filter (\<lambda>line. case parse_row line of Inl e \<Rightarrow> None | Inr item \<Rightarrow> Some item) lines"

definition retained :: "(ustring \<Rightarrow> int option) \<Rightarrow> ustring list \<Rightarrow> ustring \<Rightarrow> RawItem list" where
  "retained py_int lines condition =
     filter (\<lambda>item. item_to_sva_condition py_int item = Inr condition) (rows lines)"

subsection \<open>The surviving examples of a condition\<close>

text \<open>
  The example \<open>item_to_example\<close> produces for an item, if it produces one, and the
  examples of a list of items in the order of the items: the examples that survive the
  filter of \<open>create_corpus\<close>.
\<close>

definition example_of ::
  "(ustring \<Rightarrow> int option) \<Rightarrow> (ustring \<Rightarrow> ustring) \<Rightarrow> (ustring \<rightharpoonup> ustring) \<Rightarrow> RawItem \<Rightarrow> Example option" where
  "example_of py_int unidecode verb_inflections item =
     (case item_to_example py_int unidecode item verb_inflections of
        Inl e \<Rightarrow> None
      | Inr ex \<Rightarrow> ex)"

definition surviving ::
  "(ustring \<Rightarrow> int option) \<Rightarrow> (ustring \<Rightarrow> ustring) \<Rightarrow> (ustring \<rightharpoonup> ustring) \<Rightarrow> RawItem list \<Rightarrow> Example list" where
  "surviving py_int unidecode verb_inflections items =
     List.map_filter (example_of py_int unidecode verb_inflections) items"

text \<open>
  \<open>raw_corpora.get(condition, [])\<close>, and the triples of attractor count, condition and
  corpus that the two-level mapping holds.
\<close>

definition items_of :: "(ustring \<times> RawItem list) list \<Rightarrow> ustring \<Rightarrow> RawItem list" where
  "items_of raw condition = (case map_of raw condition of None \<Rightarrow> [] | Some items \<Rightarrow> items)"

definition corpus_entries :: "DownstreamCorpora \<Rightarrow> (ustring \<times> ustring \<times> Corpus) set" where
  "corpus_entries corpora =
     {(n_attractors, condition, corpus).
        \<exists>inner. (n_attractors, inner) \<in> set corpora \<and> (condition, corpus) \<in> set inner}"

text \<open>
  \<open>corpora[n_attractors][condition]\<close>, \<open>None\<close> where one of the two keys is missing.
\<close>

definition corpora_get :: "DownstreamCorpora \<Rightarrow> ustring \<Rightarrow> ustring \<Rightarrow> Corpus option" where
  "corpora_get corpora n_attractors condition =
     (case map_of corpora n_attractors of
        None \<Rightarrow> None
      | Some inner \<Rightarrow> map_of inner condition)"

section \<open>The initial states of \<open>activations/init_states.py\<close>\<close>

text \<open>
  Modelled from the spec: \<open>SizeDict\<close> (\<open>diagnnose.typedefs.models\<close>) is not among the
  sources. It is the ordered sequence, indexed by the layer number, of the hidden width
  \<open>h\<close> and the cell width \<open>c\<close> of every layer: \<open>sizes[layer]["h"]\<close> is
  \<open>size_h (sizes ! layer)\<close>. Widths and batch sizes are dimensions of tensors, natural
  numbers.
\<close>

record layer_size =
  size_h :: nat
  size_c :: nat

text \<open>
  A tensor is its shape and its entries in row-major order. \<open>ActivationTensors\<close> is
  a dictionary from \<open>(layer, name)\<close> to a tensor.
\<close>

record tensor =
  shape :: "nat list"
  entries :: "real list"

type_synonym ActivationTensors = "nat \<times> ustring \<rightharpoonup> tensor"

text \<open>
  The object. \<open>__init__\<close> stores \<open>sizes\<close> and the path and sets \<open>num_layers\<close> to
  \<open>len(sizes)\<close>, which nothing changes afterwards.
\<close>

record InitStates =
  sizes :: "layer_size list"
  init_states_path :: "ustring option"

definition InitStates_init :: "layer_size list \<Rightarrow> ustring option \<Rightarrow> InitStates" where
  "InitStates_init szs path = \<lparr>sizes = szs, init_states_path = path\<rparr>"

definition num_layers :: "InitStates \<Rightarrow> nat" where
  "num_layers self = length (sizes self)"

text \<open>
  The static method \<open>_create_zero_state\<close>: \<open>torch.zeros((batch_size, size))\<close>.
\<close>

definition create_zero_state' :: "nat \<Rightarrow> nat \<Rightarrow> tensor" where
  "create_zero_state' sz batch_size =
     \<lparr>shape = [batch_size, sz], entries = replicate (batch_size * sz) 0\<rparr>"

text \<open>
  \<open>create_zero_state\<close>: the loop over \<open>range(self.num_layers)\<close>. Both entries of a
  layer are built from \<open>self.sizes[layer]["c"]\<close>.
\<close>

fun zero_state_loop ::
  "InitStates \<Rightarrow> nat \<Rightarrow> nat list \<Rightarrow> ActivationTensors \<Rightarrow> ActivationTensors" where
  "zero_state_loop self batch_size [] init_states = init_states"
| "zero_state_loop self batch_size (layer # layers) init_states =
     zero_state_loop self batch_size layers
       (init_states
          ((layer, ustr ''cx'') \<mapsto> create_zero_state' (size_c (sizes self ! layer)) batch_size,
           (layer, ustr ''hx'') \<mapsto> create_zero_state' (size_c (sizes self ! layer)) batch_size))"

definition create_zero_state :: "InitStates \<Rightarrow> nat \<Rightarrow> ActivationTensors" where
  "create_zero_state self batch_size =
     zero_state_loop self batch_size [0..<num_layers self] Map.empty"

text \<open>
  \<open>t.size(0)\<close> raises \<open>IndexError\<close> on a tensor without dimensions.
\<close>

definition size0 :: "tensor \<Rightarrow> error + nat" where
  "size0 t = (case shape t of [] \<Rightarrow> Inl IndexError | d # ds \<Rightarrow> Inr d)"

text \<open>
  \<open>_validate\<close>. Every \<open>assert\<close> that fails raises \<open>AssertionError\<close>; \<open>len(init_states)\<close>
  is the number of keys of the dictionary. The loop runs over the layers in order.
\<close>

fun validate_loop :: "InitStates \<Rightarrow> nat list \<Rightarrow> ActivationTensors \<Rightarrow> error + unit" where
  "validate_loop self [] init_states = Inr ()"
| "validate_loop self (layer # layers) init_states =
     (case init_states (layer, ustr ''hx'') of
        None \<Rightarrow> Inl AssertionError
      | Some hx \<Rightarrow>
          (case init_states (layer, ustr ''cx'') of
             None \<Rightarrow> Inl AssertionError
           | Some cx \<Rightarrow>
               (case size0 hx of
                  Inl e \<Rightarrow> Inl e
                | Inr dh \<Rightarrow>
                    if dh \<noteq> size_h (sizes self ! layer) then Inl AssertionError
                    else
                      (case size0 cx of
                         Inl e \<Rightarrow> Inl e
                       | Inr dc \<Rightarrow>
                           if dc \<noteq> size_c (sizes self ! layer) then Inl AssertionError
                           else validate_loop self layers init_states))))"

definition validate :: "InitStates \<Rightarrow> ActivationTensors \<Rightarrow> error + unit" where
  "validate self init_states =
     (if card (dom init_states) \<noteq> num_layers self then Inl AssertionError
      else validate_loop self [0..<num_layers self] init_states)"

text \<open>
  \<open>torch.repeat_interleave(t.unsqueeze(0), batch_size, dim=0)\<close>: a new leading
  dimension of size \<open>batch_size\<close>, every row a copy of \<open>t\<close>. \<open>_expand_batch_size\<close> reads
  both entries of every layer and raises \<open>KeyError\<close> for one that is missing.
\<close>

definition repeat_interleave_unsqueeze :: "tensor \<Rightarrow> nat \<Rightarrow> tensor" where
  "repeat_interleave_unsqueeze t batch_size =
     \<lparr>shape = batch_size # shape t, entries = concat (replicate batch_size (entries t))\<rparr>"

fun expand_loop ::
  "nat \<Rightarrow> nat list \<Rightarrow> ActivationTensors \<Rightarrow> ActivationTensors \<Rightarrow> error + ActivationTensors" where
  "expand_loop batch_size [] init_states batch_init_states = Inr batch_init_states"
| "expand_loop batch_size (layer # layers) init_states batch_init_states =
     (case init_states (layer, ustr ''cx'') of
        None \<Rightarrow> Inl KeyError
      | Some cx \<Rightarrow>
          (case init_states (layer, ustr ''hx'') of
             None \<Rightarrow> Inl KeyError
           | Some hx \<Rightarrow>
               expand_loop batch_size layers init_states
                 (batch_init_states
                    ((layer, ustr ''cx'') \<mapsto> repeat_interleave_unsqueeze cx batch_size,
                     (layer, ustr ''hx'') \<mapsto> repeat_interleave_unsqueeze hx batch_size))))"

definition expand_batch_size ::
  "InitStates \<Rightarrow> ActivationTensors \<Rightarrow> nat \<Rightarrow> error + ActivationTensors" where
  "expand_batch_size self init_states batch_size =
     expand_loop batch_size [0..<num_layers self] init_states Map.empty"

text \<open>
  \<open>create\<close>. \<open>load_pickle\<close> (\<open>diagnnose.utils.pickle\<close>) is not among the sources: it is
  a parameter, the function from a path to the structure stored there.
\<close>

definition create ::
  "(ustring \<Rightarrow> error + ActivationTensors) \<Rightarrow> InitStates \<Rightarrow> nat \<Rightarrow> error + ActivationTensors" where
  "create load_pickle self batch_size =
     (case init_states_path self of
        Some path \<Rightarrow>
          (case load_pickle path of
             Inl e \<Rightarrow> Inl e
           | Inr init_states \<Rightarrow>
               (case validate self init_states of
                  Inl e \<Rightarrow> Inl e
                | Inr u \<Rightarrow> expand_batch_size self init_states batch_size))
      | None \<Rightarrow> Inr (create_zero_state self batch_size))"

text \<open>
  The shape contract in the words of the specification: as many entries as layers, both
  entries of every layer present, and the leading dimension of each equal to the declared
  width of its kind.
\<close>

definition complies :: "layer_size list \<Rightarrow> ActivationTensors \<Rightarrow> bool" where
  "complies szs init_states \<longleftrightarrow>
     card (dom init_states) = length szs \<and>
     (\<forall>layer < length szs.
        \<exists>hx cx. init_states (layer, ustr ''hx'') = Some hx \<and>
                init_states (layer, ustr ''cx'') = Some cx \<and>
                size0 hx = Inr (size_h (szs ! layer)) \<and>
                size0 cx = Inr (size_c (szs ! layer)))"

section \<open>Sample data\<close>

text \<open>
  A reader of integers for the sample rows, which are written in ASCII: white space
  around the number is ignored (of the ASCII characters \<open>int\<close> ignores 9 to 13 and 32
  only), one sign is allowed, and single underscores may separate the digits 0 to 9.
  Every other string is refused.
\<close>

definition int_space :: "nat \<Rightarrow> bool" where
  "int_space c \<longleftrightarrow> is_space c \<and> \<not> (28 \<le> c \<and> c \<le> 31)"

definition is_digit :: "nat \<Rightarrow> bool" where
  "is_digit c \<longleftrightarrow> 48 \<le> c \<and> c \<le> 57"

fun int_digits :: "int \<Rightarrow> bool \<Rightarrow> ustring \<Rightarrow> int option" where
  "int_digits acc prev [] = (if prev then Some acc else None)"
| "int_digits acc prev (c # cs) =
     (if is_digit c then int_digits (10 * acc + int (c - 48)) True cs
      else if c = 95 \<and> prev then int_digits acc False cs
      else None)"

definition ascii_int :: "ustring \<Rightarrow> int option" where
  "ascii_int s =
     (case rev (dropWhile int_space (rev (dropWhile int_space s))) of
        [] \<Rightarrow> None
      | c # cs \<Rightarrow>
          if c = 43 then int_digits 0 False cs
          else if c = 45 then map_option uminus (int_digits 0 False cs)
          else int_digits 0 False (c # cs))"

text \<open>One layer of hidden width 3 and cell width 2, and a stored structure with one entry.\<close>

definition one_layer :: "layer_size list" where
  "one_layer = [\<lparr>size_h = 3, size_c = 2\<rparr>]"

definition hx_only :: ActivationTensors where
  "hx_only = [(0, ustr ''hx'') \<mapsto> \<lparr>shape = [3], entries = [0, 0, 0]\<rparr>]"

text \<open>
  Two small tagged vocabularies with their oracles: \<open>am\<close> and \<open>is\<close> share the plural
  form \<open>are\<close>, as they do for the \<open>inflect\<close> library; \<open>walks\<close> has the plural form
  \<open>walk\<close>.
\<close>

definition be_plural :: "ustring \<Rightarrow> ustring" where
  "be_plural w = (if w = ustr ''am'' \<or> w = ustr ''is'' then ustr ''are'' else w)"

definition be_vocab :: "ustring list" where
  "be_vocab = map ustr [''am'', ''is'', ''are'']"

definition be_wiki :: "ustring list" where
  "be_wiki = map ustr [''word pos count'', ''am VBZ 9'', ''is VBZ 9'', ''are VBP 9'']"

definition walk_plural :: "ustring \<Rightarrow> ustring" where
  "walk_plural w = (if w = ustr ''walks'' then ustr ''walk'' else w)"

definition walk_vocab :: "ustring list" where
  "walk_vocab = map ustr [''the'', ''walks'', ''walk'']"

definition walk_wiki :: "ustring list" where
  "walk_wiki = map ustr [''word pos count'', ''walks VBZ 9'', ''the DT 9'', ''walk VBP 9'']"

definition walk_table :: "ustring \<rightharpoonup> ustring" where
  "walk_table = [ustr ''walk'' \<mapsto> ustr ''walks'', ustr ''walks'' \<mapsto> ustr ''walk'']"

text \<open>
  Lines of a corpus file: the fields joined by tabs, and a line feed. The first row is the
  sentence of the docstring of \<open>item_to_sva_condition\<close>; the short row has three fields.
\<close>

fun join_tab :: "ustring list \<Rightarrow> ustring" where
  "join_tab [] = []"
| "join_tab [f] = f"
| "join_tab (f # g # fs) = f @ 9 # join_tab (g # fs)"

definition bridge_row :: RawItem where
  "bridge_row =
     \<lparr>sentence = ustr ''the men under the bridge walk'',
      orig_sentence = ustr ''the men under the bridge walk'',
      pos_sentence = ustr ''DT NNS IN DT NN VBP'', subj = ustr ''men'', verb = ustr ''walk'',
      subj_pos = ustr ''NNS'', has_rel = ustr ''0'', has_nsubj = ustr ''0'',
      verb_pos = ustr ''VBP'', subj_index = ustr ''2'', verb_index = ustr ''6'',
      n_intervening = ustr ''1'', last_intervening = ustr ''sg'',
      n_diff_intervening = ustr ''1'', distance = ustr ''4'', max_depth = ustr ''1'',
      all_nouns = ustr ''men bridge'', nouns_up_to_verb = ustr ''men bridge''\<rparr>"

definition bridge_line :: ustring where
  "bridge_line =
     join_tab (map ustr [''the men under the bridge walk'', ''the men under the bridge walk'',
       ''DT NNS IN DT NN VBP'', ''men'', ''walk'', ''NNS'', ''0'', ''0'', ''VBP'', ''2'', ''6'',
       ''1'', ''sg'', ''1'', ''4'', ''1'', ''men bridge'', ''men bridge'']) @ [10]"

definition short_line :: ustring where
  "short_line = join_tab (map ustr [''the men walk'', ''the men walk'', ''DT NNS VBP'']) @ [10]"

definition header_line :: ustring where
  "header_line = ustr ''sentence'' @ [10]"

text \<open>
  A transliteration of two characters, as \<open>unidecode\<close> gives it: e with acute accent
  (233) becomes e (101) and the right single quotation mark (8217) the apostrophe (39).
  Two rows with such characters, and a table with their verbs.
\<close>

definition ascii_fold :: "ustring \<Rightarrow> ustring" where
  "ascii_fold s = map (\<lambda>c. if c = 233 then 101 else if c = 8217 then 39 else c) s"

definition cafe_row :: RawItem where
  "cafe_row = bridge_row
     \<lparr>orig_sentence := ustr ''the caf'' @ [233] @ ustr '' opens'',
      verb := ustr ''opens'', verb_index := ustr ''3''\<rparr>"

definition quote_row :: RawItem where
  "quote_row = bridge_row
     \<lparr>orig_sentence := ustr ''the man'' @ [8217] @ ustr ''s dog barks'',
      verb := ustr ''barks'', verb_index := ustr ''4''\<rparr>"

definition verbs_table :: "ustring \<rightharpoonup> ustring" where
  "verbs_table = [ustr ''opens'' \<mapsto> ustr ''open'', ustr ''barks'' \<mapsto> ustr ''bark'']"

text \<open>
  The example of the sentence of the docstring, the table of the \<open>be\<close> vocabulary,
  and two results of builds.
\<close>

definition bridge_example :: Example where
  "bridge_example =
     \<lparr>sen = map ustr [''the'', ''men'', ''under'', ''the'', ''bridge''],
      token = ustr ''walk'', wrong_token = ustr ''walks''\<rparr>"

definition be_table :: "ustring \<rightharpoonup> ustring" where
  "be_table = [ustr ''are'' \<mapsto> ustr ''am'', ustr ''am'' \<mapsto> ustr ''are'',
               ustr ''are'' \<mapsto> ustr ''is'', ustr ''is'' \<mapsto> ustr ''are'']"

definition walk_corpora :: DownstreamCorpora where
  "walk_corpora = [(ustr ''2'', [(ustr ''PS'', [bridge_example])])]"

definition empty_corpora :: DownstreamCorpora where
  "empty_corpora = [(ustr ''2'', [(ustr ''PS'', [])])]"

text \<open>
  A second row, of condition SS, whose verb \<open>runs\<close> is not in the table of the \<open>walk\<close>
  vocabulary, and the result of the build from both rows.
\<close>

definition dog_row :: RawItem where
  "dog_row =
     \<lparr>sentence = ustr ''the dog near the cat runs'',
      orig_sentence = ustr ''the dog near the cat runs'',
      pos_sentence = ustr ''DT NN IN DT NN VBZ'', subj = ustr ''dog'', verb = ustr ''runs'',
      subj_pos = ustr ''NN'', has_rel = ustr ''0'', has_nsubj = ustr ''0'',
      verb_pos = ustr ''VBZ'', subj_index = ustr ''2'', verb_index = ustr ''6'',
      n_intervening = ustr ''1'', last_intervening = ustr ''sg'',
      n_diff_intervening = ustr ''0'', distance = ustr ''4'', max_depth = ustr ''1'',
      all_nouns = ustr ''dog cat'', nouns_up_to_verb = ustr ''dog cat''\<rparr>"

definition dog_line :: ustring where
  "dog_line =
     join_tab (map ustr [''the dog near the cat runs'', ''the dog near the cat runs'',
       ''DT NN IN DT NN VBZ'', ''dog'', ''runs'', ''NN'', ''0'', ''0'', ''VBZ'', ''2'', ''6'',
       ''1'', ''sg'', ''0'', ''4'', ''1'', ''dog cat'', ''dog cat'']) @ [10]"

definition two_corpora :: DownstreamCorpora where
  "two_corpora = [(ustr ''2'', [(ustr ''PS'', [bridge_example]), (ustr ''SS'', [])])]"

section \<open>Properties\<close>

subsection \<open>Condition codes\<close>

lemma concat_pos_mapping: "concat (map pos_mapping tags) = spec_condition_code tags"
  by (induction tags)
    (simp_all add: spec_condition_code_def pos_mapping_def is_noun_tag_def noun_letter_def
      ustr_def)

lemma py_slice_one_based:
  assumes "1 \<le> a" and "0 \<le> b"
  shows "py_slice xs (a - 1) b = drop (nat (a - 1)) (take (nat b) xs)"
proof -
  have lo: "slice_bound (length xs) (a - 1) = min (length xs) (nat (a - 1))"
    using assms(1) by (simp add: slice_bound_def)
  have hi: "slice_bound (length xs) b = min (length xs) (nat b)"
    using assms(2) by (simp add: slice_bound_def)
  have "drop (min (length xs) (nat (a - 1))) (take (nat b) xs) =
        drop (nat (a - 1)) (take (nat b) xs)"
    by (cases "nat (a - 1) \<le> length xs") (simp_all add: min_def)
  then show ?thesis
    by (simp add: py_slice_def lo hi min_def)
qed

text \<open>
  Claim C1. For an item whose two index fields are integers, the condition code is the
  specification's code of the slice \<open>pos_sen[subj_index - 1 : verb_index]\<close> of the split
  POS sentence; for a 1-based subject index that slice holds the tags at the 0-based
  positions from \<open>subj_index - 1\<close> up to, not including, \<open>verb_index\<close>; and the tags
  DT NNS IN DT NN give the code PS.
\<close>

theorem item_to_sva_condition_code:
  assumes "py_int (subj_index item) = Some si"
    and "py_int (verb_index item) = Some vi"
  shows "item_to_sva_condition py_int item =
           Inr (spec_condition_code (py_slice (split_ws (pos_sentence item)) (si - 1) vi))
         \<and> (1 \<le> si \<and> 0 \<le> vi \<longrightarrow>
              py_slice (split_ws (pos_sentence item)) (si - 1) vi =
                drop (nat (si - 1)) (take (nat vi) (split_ws (pos_sentence item))))
         \<and> spec_condition_code
              [ustr ''DT'', ustr ''NNS'', ustr ''IN'', ustr ''DT'', ustr ''NN''] = ustr ''PS''"
proof -
  have code: "item_to_sva_condition py_int item =
      Inr (spec_condition_code (py_slice (split_ws (pos_sentence item)) (si - 1) vi))"
    using assms by (simp add: item_to_sva_condition_def concat_pos_mapping)
  have slice: "1 \<le> si \<and> 0 \<le> vi \<longrightarrow>
      py_slice (split_ws (pos_sentence item)) (si - 1) vi =
        drop (nat (si - 1)) (take (nat vi) (split_ws (pos_sentence item)))"
    using py_slice_one_based by blast
  have ex: "spec_condition_code
      [ustr ''DT'', ustr ''NNS'', ustr ''IN'', ustr ''DT'', ustr ''NN''] = ustr ''PS''"
    by (simp add: spec_condition_code_def is_noun_tag_def noun_letter_def ustr_def)
  from code slice ex show ?thesis by blast
qed

theorem item_to_sva_condition_code_witness:
  "ascii_int (subj_index bridge_row) = Some 2 \<and> ascii_int (verb_index bridge_row) = Some 6
   \<and> (1::int) \<le> 2 \<and> (0::int) \<le> 6
   \<and> item_to_sva_condition ascii_int bridge_row = Inr (ustr ''PS'')"
proof -
  have s: "ascii_int (subj_index bridge_row) = Some 2"
    by (simp add: bridge_row_def ascii_int_def int_space_def strip_def is_space_def is_digit_def ustr_def)
  have v: "ascii_int (verb_index bridge_row) = Some 6"
    by (simp add: bridge_row_def ascii_int_def int_space_def strip_def is_space_def is_digit_def ustr_def)
  have "split_ws (pos_sentence bridge_row) =
      map ustr [''DT'', ''NNS'', ''IN'', ''DT'', ''NN'', ''VBP'']"
    by (simp add: bridge_row_def split_ws_def is_space_def ustr_def)
  with item_to_sva_condition_code [where py_int = ascii_int, OF s v] s v show ?thesis
    by (simp add: spec_condition_code_def is_noun_tag_def noun_letter_def ustr_def)
qed

subsection \<open>Initial states\<close>

lemma kinds_differ: "ustr ''cx'' \<noteq> ustr ''hx''"
  by (simp add: ustr_def)

lemma zero_state_loop_lookup:
  "zero_state_loop self B ls st (l, k) =
     (if l \<in> set ls \<and> (k = ustr ''cx'' \<or> k = ustr ''hx'')
      then Some (create_zero_state' (size_c (sizes self ! l)) B) else st (l, k))"
  by (induction ls arbitrary: st) auto

text \<open>
  Claim C8. For every layer-size spec and batch size \<open>B\<close>, the state of
  \<open>create_zero_state\<close> holds for every layer a hidden and a cell tensor of shape
  \<open>(B, c)\<close>, all entries zero, where \<open>c\<close> is the cell width of the layer, also for
  the hidden tensor; \<open>create\<close> without a path returns this state.
\<close>

theorem create_zero_state_zeros:
  assumes "layer < length szs"
  shows "create_zero_state (InitStates_init szs path) B (layer, ustr ''hx'') =
           Some \<lparr>shape = [B, size_c (szs ! layer)],
                 entries = replicate (B * size_c (szs ! layer)) 0\<rparr>
       \<and> create_zero_state (InitStates_init szs path) B (layer, ustr ''cx'') =
           Some \<lparr>shape = [B, size_c (szs ! layer)],
                 entries = replicate (B * size_c (szs ! layer)) 0\<rparr>
       \<and> create (load_pickle) (InitStates_init szs None) B =
           Inr (create_zero_state (InitStates_init szs None) B)"
  using assms
  by (simp add: create_zero_state_def zero_state_loop_lookup num_layers_def
      InitStates_init_def create_zero_state'_def create_def)

theorem create_zero_state_zeros_witness:
  "(0::nat) < length one_layer
   \<and> create_zero_state (InitStates_init one_layer None) 2 (0, ustr ''hx'') =
       Some \<lparr>shape = [2, 2], entries = [0, 0, 0, 0]\<rparr>
   \<and> create_zero_state (InitStates_init one_layer None) 2 (0, ustr ''cx'') =
       Some \<lparr>shape = [2, 2], entries = [0, 0, 0, 0]\<rparr>"
proof -
  have l: "(0::nat) < length one_layer"
    by (simp add: one_layer_def)
  from create_zero_state_zeros [OF l, of None 2] l show ?thesis
    by (simp add: one_layer_def numeral_eq_Suc)
qed

lemma validate_loop_ok:
  "validate_loop self ls st = Inr () \<longleftrightarrow>
     (\<forall>layer \<in> set ls.
        \<exists>hx cx. st (layer, ustr ''hx'') = Some hx \<and> st (layer, ustr ''cx'') = Some cx \<and>
                size0 hx = Inr (size_h (sizes self ! layer)) \<and>
                size0 cx = Inr (size_c (sizes self ! layer)))"
  by (induction ls) (auto split: option.splits sum.splits)

lemma validate_loop_errors:
  "validate_loop self ls st = Inl e \<Longrightarrow> e = AssertionError \<or> e = IndexError"
  by (induction ls) (auto split: option.splits sum.splits if_splits simp: size0_def split: list.splits)

lemma validate_loop_dims:
  "validate_loop self ls st = Inl e \<Longrightarrow> \<forall>t \<in> ran st. shape t \<noteq> [] \<Longrightarrow> e = AssertionError"
  by (induction ls) (auto split: option.splits sum.splits if_splits simp: size0_def ran_def split: list.splits)

lemma validate_accepts:
  "validate (InitStates_init szs path) st = Inr () \<longleftrightarrow> complies szs st"
  by (auto simp: validate_def complies_def validate_loop_ok num_layers_def InitStates_init_def)

lemma complies_no_layers:
  assumes "complies szs st" and "finite (dom st)"
  shows "szs = []"
proof -
  let ?n = "length szs"
  let ?H = "(\<lambda>l. (l, ustr ''hx'')) ` {..<?n}"
  let ?C = "(\<lambda>l. (l, ustr ''cx'')) ` {..<?n}"
  have sub: "?H \<union> ?C \<subseteq> dom st"
    using assms(1) by (auto simp: complies_def)
  have disj: "?H \<inter> ?C = {}"
    using kinds_differ by auto
  have "card ?H = ?n" "card ?C = ?n"
    by (simp_all add: card_image inj_on_def)
  then have "card (?H \<union> ?C) = ?n + ?n"
    using disj by (simp add: card_Un_disjoint)
  moreover have "card (?H \<union> ?C) \<le> card (dom st)"
    using sub assms(2) by (rule card_mono[rotated])
  moreover have "card (dom st) = ?n"
    using assms(1) by (simp add: complies_def)
  ultimately show ?thesis by simp
qed

text \<open>
  Claim C4, amended. A loaded structure that breaks the shape contract (a number of
  entries other than the number of layers, a missing entry of a layer, or a leading
  dimension other than the declared width) makes \<open>create\<close> fail. The exception is the
  \<open>AssertionError\<close> of an \<open>assert\<close>, or an \<open>IndexError\<close> when a tensor without
  dimensions is measured; it is \<open>AssertionError\<close> whenever every stored tensor has a
  dimension, and whenever the number of entries is wrong.
\<close>

theorem create_rejects_bad_states:
  assumes load: "load_pickle path = Inr init_states"
    and bad: "\<not> complies szs init_states"
  shows "(create load_pickle (InitStates_init szs (Some path)) B = Inl AssertionError
            \<or> create load_pickle (InitStates_init szs (Some path)) B = Inl IndexError)
       \<and> ((\<forall>t \<in> ran init_states. shape t \<noteq> []) \<longrightarrow>
            create load_pickle (InitStates_init szs (Some path)) B = Inl AssertionError)
       \<and> (card (dom init_states) \<noteq> length szs \<longrightarrow>
            create load_pickle (InitStates_init szs (Some path)) B = Inl AssertionError)"
proof -
  let ?self = "InitStates_init szs (Some path)"
  have nok: "validate ?self init_states \<noteq> Inr ()"
    using bad by (simp add: validate_accepts)
  then obtain e where e: "validate ?self init_states = Inl e"
    by (cases "validate ?self init_states") auto
  have cr: "create load_pickle ?self B = Inl e"
    using load e by (simp add: create_def InitStates_init_def)
  have count: "card (dom init_states) \<noteq> length szs \<Longrightarrow> e = AssertionError"
    using e by (simp add: validate_def num_layers_def InitStates_init_def)
  have loop: "card (dom init_states) = length szs \<Longrightarrow>
      validate_loop ?self [0..<length szs] init_states = Inl e"
    using e by (simp add: validate_def num_layers_def InitStates_init_def)
  have either: "e = AssertionError \<or> e = IndexError"
    using count loop validate_loop_errors by blast
  have dims: "\<forall>t \<in> ran init_states. shape t \<noteq> [] \<Longrightarrow> e = AssertionError"
    using count loop validate_loop_dims by blast
  from cr either dims count show ?thesis by auto
qed

theorem create_rejects_bad_states_witness:
  "(\<lambda>p. Inr hx_only) (ustr ''init.pickle'') = (Inr hx_only :: error + ActivationTensors)
   \<and> \<not> complies one_layer hx_only
   \<and> create (\<lambda>p. Inr hx_only) (InitStates_init one_layer (Some (ustr ''init.pickle''))) 1
       = Inl AssertionError"
proof -
  have bad: "\<not> complies one_layer hx_only"
    by (simp add: complies_def one_layer_def hx_only_def ustr_def)
  have dims: "\<forall>t \<in> ran hx_only. shape t \<noteq> []"
    by (simp add: hx_only_def)
  from create_rejects_bad_states [of "\<lambda>p. Inr hx_only" "ustr ''init.pickle''" hx_only one_layer 1,
      OF refl bad] dims bad
  show ?thesis by simp
qed

text \<open>
  The claim as stated names \<open>ShapeMismatchError\<close>: an empty structure loaded for one
  layer raises \<open>AssertionError\<close> instead.
\<close>

theorem create_raises_AssertionError:
  "card (dom (Map.empty :: ActivationTensors)) \<noteq> length one_layer
   \<and> create (\<lambda>p. Inr Map.empty) (InitStates_init one_layer (Some (ustr ''init.pickle''))) 1
       = Inl AssertionError
   \<and> create (\<lambda>p. Inr Map.empty) (InitStates_init one_layer (Some (ustr ''init.pickle''))) 1
       \<noteq> Inl ShapeMismatchError"
  by (simp add: create_def validate_def num_layers_def InitStates_init_def one_layer_def)

subsection \<open>The table of verb inflections\<close>

lemma tag_names_differ: "ustr ''VBP'' \<noteq> ustr ''VBZ''"
  by (simp add: ustr_def)

lemma tagged_words_Cons:
  "tagged_words V tag (line # lines) =
     line_word V tag (split_ws (strip line)) @ tagged_words V tag lines"
  by (simp add: tagged_words_def)

lemma line_word_vocab: "set (line_word V tag fs) \<subseteq> V"
  by (induction V tag fs rule: line_word.induct) auto

lemma collect_verbs_tagged:
  "collect_verbs V lines (vbp, vbz) = Inr (vbp', vbz') \<Longrightarrow>
     vbp' = vbp @ tagged_words V (ustr ''VBP'') lines \<and>
     vbz' = vbz @ tagged_words V (ustr ''VBZ'') lines"
proof (induction lines arbitrary: vbp vbz)
  case Nil
  then show ?case by (simp add: tagged_words_def)
next
  case (Cons line lines)
  from Cons.prems obtain word pos other where
    sp: "split_ws (strip line) = [word, pos, other]"
    by (auto split: list.splits)
  consider (vbp) "word \<in> V" "pos = ustr ''VBP''"
    | (vbz) "word \<in> V" "pos = ustr ''VBZ''"
    | (none) "\<not> (word \<in> V \<and> pos = ustr ''VBP'')" "\<not> (word \<in> V \<and> pos = ustr ''VBZ'')"
    by blast
  then show ?case
  proof cases
    case vbp
    with Cons.prems sp have "collect_verbs V lines (vbp @ [word], vbz) = Inr (vbp', vbz')"
      by simp
    from Cons.IH [OF this] show ?thesis
      using sp vbp tag_names_differ by (simp add: tagged_words_Cons)
  next
    case vbz
    with Cons.prems sp tag_names_differ
    have "collect_verbs V lines (vbp, vbz @ [word]) = Inr (vbp', vbz')"
      by simp
    from Cons.IH [OF this] show ?thesis
      using sp vbz tag_names_differ by (simp add: tagged_words_Cons)
  next
    case none
    with Cons.prems sp have "collect_verbs V lines (vbp, vbz) = Inr (vbp', vbz')"
      by simp
    from Cons.IH [OF this] show ?thesis
      using sp none by (simp add: tagged_words_Cons)
  qed
qed

lemma tagged_words_vocab: "set (tagged_words V tag lines) \<subseteq> V"
  using line_word_vocab by (induction lines) (auto simp: tagged_words_def)

lemma registered_Cons:
  "registered pl vbp (w # ws) =
     (if pl w \<in> set vbp then insert w (registered pl vbp ws) else registered pl vbp ws)"
  by (auto simp: registered_def)

lemma register_Cons:
  "register_inflections pl vbp (w # ws) t =
     (if pl w \<in> set vbp then register_inflections pl vbp ws (t(pl w \<mapsto> w, w \<mapsto> pl w))
      else register_inflections pl vbp ws t)"
  by (simp add: Let_def)

lemma register_dom:
  "dom (register_inflections pl vbp ws t) =
     dom t \<union> registered pl vbp ws \<union> pl ` registered pl vbp ws"
proof (induction ws arbitrary: t)
  case Nil
  show ?case by (simp add: registered_def)
next
  case (Cons w ws)
  show ?case
    unfolding register_Cons registered_Cons using Cons.IH by auto
qed

lemma register_untouched:
  "k \<notin> registered pl vbp ws \<Longrightarrow> k \<notin> pl ` registered pl vbp ws \<Longrightarrow>
     register_inflections pl vbp ws t k = t k"
proof (induction ws arbitrary: t)
  case Nil
  show ?case by simp
next
  case (Cons w ws)
  show ?case
  proof (cases "pl w \<in> set vbp")
    case True
    with Cons.prems have k: "k \<noteq> w" "k \<noteq> pl w"
      "k \<notin> registered pl vbp ws" "k \<notin> pl ` registered pl vbp ws"
      by (auto simp: registered_Cons)
    from Cons.IH [OF k(3,4)] k(1,2) True show ?thesis
      by (simp only: register_Cons if_True fun_upd_apply if_False)
  next
    case False
    with Cons.prems have "k \<notin> registered pl vbp ws" "k \<notin> pl ` registered pl vbp ws"
      by (auto simp: registered_Cons)
    from Cons.IH [OF this] False show ?thesis
      by (simp only: register_Cons if_False)
  qed
qed

lemma register_values_are_keys:
  "\<forall>k v. t k = Some v \<longrightarrow> v \<in> dom t \<Longrightarrow>
   register_inflections pl vbp ws t k = Some v \<Longrightarrow>
   v \<in> dom (register_inflections pl vbp ws t)"
proof (induction ws arbitrary: t)
  case Nil
  then show ?case by auto
next
  case (Cons w ws)
  show ?case
  proof (cases "pl w \<in> set vbp")
    case True
    let ?t = "t(pl w \<mapsto> w, w \<mapsto> pl w)"
    have eq: "register_inflections pl vbp (w # ws) t = register_inflections pl vbp ws ?t"
      using True by (simp only: register_Cons if_True)
    have inv: "\<forall>k v. ?t k = Some v \<longrightarrow> v \<in> dom ?t"
      using Cons.prems(1) by (auto split: if_splits)
    have "register_inflections pl vbp ws ?t k = Some v"
      using Cons.prems(2) unfolding eq .
    from Cons.IH [OF inv this] show ?thesis
      unfolding eq .
  next
    case False
    then have eq: "register_inflections pl vbp (w # ws) t = register_inflections pl vbp ws t"
      by (simp only: register_Cons if_False)
    from Cons.IH [OF Cons.prems(1)] Cons.prems(2) show ?thesis
      unfolding eq by blast
  qed
qed

lemma register_singular:
  "w \<in> registered pl vbp ws \<Longrightarrow> w \<notin> pl ` registered pl vbp ws \<Longrightarrow>
     register_inflections pl vbp ws t w = Some (pl w)"
proof (induction ws arbitrary: t)
  case Nil
  then show ?case by (simp add: registered_def)
next
  case (Cons x xs)
  show ?case
  proof (cases "w \<in> registered pl vbp xs")
    case True
    have "w \<notin> pl ` registered pl vbp xs"
      using Cons.prems(2) by (auto simp: registered_Cons split: if_splits)
    from Cons.IH [OF True this] show ?thesis by (simp add: Let_def)
  next
    case False
    with Cons.prems(1) have wx: "w = x" "pl x \<in> set vbp"
      by (auto simp: registered_Cons split: if_splits)
    have "w \<notin> pl ` registered pl vbp xs"
      using Cons.prems(2) wx by (auto simp: registered_Cons)
    with False have "register_inflections pl vbp xs (t(pl x \<mapsto> x, x \<mapsto> pl x)) w
        = (t(pl x \<mapsto> x, x \<mapsto> pl x)) w"
      by (rule register_untouched)
    then show ?thesis using wx by (simp add: Let_def)
  qed
qed

lemma register_plural:
  "w \<in> registered pl vbp ws \<Longrightarrow> inj_on pl (registered pl vbp ws) \<Longrightarrow>
   pl w \<notin> registered pl vbp ws \<Longrightarrow>
     register_inflections pl vbp ws t (pl w) = Some w"
proof (induction ws arbitrary: t)
  case Nil
  then show ?case by (simp add: registered_def)
next
  case (Cons x xs)
  have sub: "registered pl vbp xs \<subseteq> registered pl vbp (x # xs)"
    by (auto simp: registered_Cons)
  have inj: "inj_on pl (registered pl vbp xs)"
    using Cons.prems(2) sub by (rule inj_on_subset)
  have notin: "pl w \<notin> registered pl vbp xs"
    using Cons.prems(3) sub by blast
  show ?case
  proof (cases "w \<in> registered pl vbp xs")
    case True
    from Cons.IH [OF True inj notin] show ?thesis by (simp add: Let_def)
  next
    case False
    with Cons.prems(1) have wx: "w = x" "pl x \<in> set vbp"
      by (auto simp: registered_Cons split: if_splits)
    have "pl x \<notin> pl ` registered pl vbp xs"
    proof
      assume "pl x \<in> pl ` registered pl vbp xs"
      then obtain y where y: "y \<in> registered pl vbp xs" "pl y = pl x" by auto
      with Cons.prems(1,2) sub wx have "y = x"
        by (meson inj_onD subsetD)
      with y False wx show False by simp
    qed
    with notin wx have "register_inflections pl vbp xs (t(pl x \<mapsto> x, x \<mapsto> pl x)) (pl x)
        = (t(pl x \<mapsto> x, x \<mapsto> pl x)) (pl x)"
      by (simp add: register_untouched)
    moreover have "x \<noteq> pl x"
      using Cons.prems(1,3) wx by auto
    ultimately show ?thesis using wx by (simp add: Let_def)
  qed
qed

lemma register_symmetric:
  assumes inj: "inj_on pl (registered pl vbp ws)"
    and disj: "registered pl vbp ws \<inter> pl ` registered pl vbp ws = {}"
    and k: "register_inflections pl vbp ws Map.empty k = Some v"
  shows "register_inflections pl vbp ws Map.empty v = Some k"
proof -
  let ?R = "registered pl vbp ws"
  have "k \<in> dom (register_inflections pl vbp ws Map.empty)"
    using k by blast
  then have "k \<in> ?R \<or> k \<in> pl ` ?R"
    by (simp add: register_dom)
  then show ?thesis
  proof
    assume kR: "k \<in> ?R"
    with disj have "k \<notin> pl ` ?R" by blast
    with kR have "register_inflections pl vbp ws Map.empty k = Some (pl k)"
      by (rule register_singular)
    with k have v: "v = pl k" by simp
    have "pl k \<notin> ?R" using kR disj by blast
    with kR inj show ?thesis unfolding v by (rule register_plural)
  next
    assume "k \<in> pl ` ?R"
    then obtain w where w: "w \<in> ?R" "k = pl w" by blast
    have n: "pl w \<notin> ?R" using w disj by blast
    from w(1) inj n have "register_inflections pl vbp ws Map.empty (pl w) = Some w"
      by (rule register_plural)
    with k w have v: "v = w" by simp
    have "w \<notin> pl ` ?R" using w disj by blast
    with w(1) show ?thesis unfolding v w(2) by (rule register_singular)
  qed
qed

lemma registrations_Cons:
  "registrations pl vbp (w # ws) =
     (if pl w \<in> set vbp then [(pl w, w), (w, pl w)] else []) @ registrations pl vbp ws"
  by (simp add: registrations_def)

lemma register_writes:
  "register_inflections pl vbp ws t = t ++ map_of (rev (registrations pl vbp ws))"
proof (induction ws arbitrary: t)
  case Nil
  show ?case by (simp add: registrations_def)
next
  case (Cons w ws)
  show ?case
  proof (cases "pl w \<in> set vbp")
    case True
    let ?t = "t(pl w \<mapsto> w, w \<mapsto> pl w)"
    have upd: "?t = t ++ map_of [(w, pl w), (pl w, w)]"
      by (simp add: map_add_def fun_eq_iff)
    have "rev (registrations pl vbp (w # ws)) =
        rev (registrations pl vbp ws) @ [(w, pl w), (pl w, w)]"
      using True by (simp add: registrations_Cons)
    then have "map_of (rev (registrations pl vbp (w # ws))) =
        map_of [(w, pl w), (pl w, w)] ++ map_of (rev (registrations pl vbp ws))"
      by (simp only: map_of_append)
    then have eq: "t ++ map_of (rev (registrations pl vbp (w # ws))) =
        ?t ++ map_of (rev (registrations pl vbp ws))"
      by (simp only: upd map_add_assoc)
    have "register_inflections pl vbp (w # ws) t =
        register_inflections pl vbp ws ?t"
      using True by (simp only: register_Cons if_True)
    also have "\<dots> = ?t ++ map_of (rev (registrations pl vbp ws))"
      by (rule Cons.IH)
    also have "\<dots> = t ++ map_of (rev (registrations pl vbp (w # ws)))"
      by (rule eq [symmetric])
    finally show ?thesis .
  next
    case False
    then show ?thesis
      using Cons.IH [of t] by (simp only: register_Cons registrations_Cons if_False append_Nil)
  qed
qed

lemma registrations_pairs:
  "(k, v) \<in> set (registrations pl vbp ws) \<Longrightarrow>
     (k \<in> registered pl vbp ws \<and> v = pl k) \<or> (v \<in> registered pl vbp ws \<and> k = pl v)"
  by (auto simp: registrations_def registered_def)

text \<open>
  Claim C2, amended. The table returned by \<open>create_verb_inflections\<close> holds, for every
  key, the value of the last pair the loop wrote for that key, where the loop writes, for
  every \<open>VBZ\<close> word of the vocabulary whose proposed plural form is among the \<open>VBP\<close> words
  of the vocabulary (a registered word), the pair from the plural form to the word and then
  the pair from the word to the plural form, and nothing else. So every entry joins a
  registered word and its plural form, in one direction or the other; a registered word
  that is no plural form of a registered word maps to its plural form; every value is a
  key; every key and value is a token of the model's vocabulary file; and the keys are
  exactly the registered words and their plural forms. The table is symmetric,
  \<open>table[table[k]] = k\<close>, when the oracle proposes different plural forms for different
  registered words and no registered word is also such a plural form.
\<close>

theorem create_verb_inflections_table:
  assumes "create_verb_inflections pl (Some vocab_lines) (Some (first # lines)) = Inr table"
  shows "(let V = set (map strip vocab_lines);
              vbp = tagged_words V (ustr ''VBP'') lines;
              vbz = tagged_words V (ustr ''VBZ'') lines;
              R = registered pl vbp vbz
          in table = map_of (rev (registrations pl vbp vbz))
           \<and> (\<forall>k v. table k = Some v \<longrightarrow> (k \<in> R \<and> v = pl k) \<or> (v \<in> R \<and> k = pl v))
           \<and> (\<forall>w \<in> R. w \<notin> pl ` R \<longrightarrow> table w = Some (pl w))
           \<and> (\<forall>w \<in> R. inj_on pl R \<and> pl w \<notin> R \<longrightarrow> table (pl w) = Some w)
           \<and> (\<forall>k v. table k = Some v \<longrightarrow> v \<in> dom table)
           \<and> dom table \<subseteq> V \<and> ran table \<subseteq> V
           \<and> dom table = R \<union> pl ` R
           \<and> (inj_on pl R \<and> R \<inter> pl ` R = {} \<longrightarrow>
                (\<forall>k v. table k = Some v \<longrightarrow> table v = Some k)))"
proof -
  let ?V = "set (map strip vocab_lines)"
  let ?vbp = "tagged_words ?V (ustr ''VBP'') lines"
  let ?vbz = "tagged_words ?V (ustr ''VBZ'') lines"
  let ?R = "registered pl ?vbp ?vbz"
  from assms obtain vbp vbz where
    cv: "collect_verbs ?V lines ([], []) = Inr (vbp, vbz)"
    and tb: "table = register_inflections pl vbp vbz Map.empty"
    by (auto simp: create_verb_inflections_def Let_def split: sum.splits)
  from collect_verbs_tagged [OF cv] have lists: "vbp = ?vbp" "vbz = ?vbz"
    by simp_all
  have table: "table = register_inflections pl ?vbp ?vbz Map.empty"
    using tb lists by simp
  have writes: "table = map_of (rev (registrations pl ?vbp ?vbz))"
    unfolding table by (simp add: register_writes)
  have pairs: "\<forall>k v. table k = Some v \<longrightarrow> (k \<in> ?R \<and> v = pl k) \<or> (v \<in> ?R \<and> k = pl v)"
  proof (intro allI impI)
    fix k v
    assume "table k = Some v"
    then have "(k, v) \<in> set (rev (registrations pl ?vbp ?vbz))"
      unfolding writes by (rule map_of_SomeD)
    then show "(k \<in> ?R \<and> v = pl k) \<or> (v \<in> ?R \<and> k = pl v)"
      using registrations_pairs [of k v pl ?vbp ?vbz] by simp
  qed
  have sing: "\<forall>w \<in> ?R. w \<notin> pl ` ?R \<longrightarrow> table w = Some (pl w)"
    unfolding table using register_singular by blast
  have plur: "\<forall>w \<in> ?R. inj_on pl ?R \<and> pl w \<notin> ?R \<longrightarrow> table (pl w) = Some w"
    unfolding table using register_plural by blast
  have keys: "\<forall>k v. table k = Some v \<longrightarrow> v \<in> dom table"
    unfolding table using register_values_are_keys [of Map.empty pl ?vbp ?vbz] by simp
  have dom: "dom table = ?R \<union> pl ` ?R"
    unfolding table by (simp add: register_dom)
  have "?R \<subseteq> ?V" "pl ` ?R \<subseteq> ?V"
    using tagged_words_vocab [of ?V] by (auto simp: registered_def)
  with dom have domV: "dom table \<subseteq> ?V" by simp
  have "ran table \<subseteq> dom table"
    using keys by (auto simp: ran_def)
  with domV have ranV: "ran table \<subseteq> ?V" by simp
  have sym: "inj_on pl ?R \<and> ?R \<inter> pl ` ?R = {} \<longrightarrow>
      (\<forall>k v. table k = Some v \<longrightarrow> table v = Some k)"
    unfolding table using register_symmetric by blast
  show ?thesis
    unfolding Let_def
    using writes pairs sing plur keys domV ranV dom sym by (intro conjI)
qed

lemma walk_words:
  "tagged_words (set (map strip walk_vocab)) (ustr ''VBP'') (tl walk_wiki) = [ustr ''walk'']"
  "tagged_words (set (map strip walk_vocab)) (ustr ''VBZ'') (tl walk_wiki) = [ustr ''walks'']"
  by (simp_all add: tagged_words_def walk_vocab_def walk_wiki_def strip_def split_ws_def
      is_space_def ustr_def)

lemma walk_create:
  "create_verb_inflections walk_plural (Some walk_vocab)
     (Some (ustr ''word pos count'' # tl walk_wiki)) = Inr walk_table"
  by (simp add: create_verb_inflections_def walk_vocab_def walk_wiki_def walk_plural_def
      walk_table_def strip_def split_ws_def is_space_def ustr_def Let_def)

lemma be_words:
  "tagged_words (set (map strip be_vocab)) (ustr ''VBP'') (tl be_wiki) = [ustr ''are'']"
  "tagged_words (set (map strip be_vocab)) (ustr ''VBZ'') (tl be_wiki) = [ustr ''am'', ustr ''is'']"
  by (simp_all add: tagged_words_def be_vocab_def be_wiki_def strip_def split_ws_def
      is_space_def ustr_def)

lemma be_create:
  "create_verb_inflections be_plural (Some be_vocab)
     (Some (ustr ''word pos count'' # tl be_wiki)) = Inr be_table"
  by (simp add: create_verb_inflections_def be_vocab_def be_wiki_def be_plural_def
      be_table_def strip_def split_ws_def is_space_def ustr_def Let_def)

theorem create_verb_inflections_table_witness:
  "create_verb_inflections walk_plural (Some walk_vocab) (Some walk_wiki) = Inr walk_table
   \<and> ustr ''walks'' \<in> registered walk_plural [ustr ''walk''] [ustr ''walks'']
   \<and> inj_on walk_plural (registered walk_plural [ustr ''walk''] [ustr ''walks''])
   \<and> registered walk_plural [ustr ''walk''] [ustr ''walks'']
       \<inter> walk_plural ` registered walk_plural [ustr ''walk''] [ustr ''walks''] = {}
   \<and> walk_table (ustr ''walks'') = Some (ustr ''walk'')
   \<and> walk_table (ustr ''walk'') = Some (ustr ''walks'')
   \<and> dom walk_table = {ustr ''walks'', ustr ''walk''}
   \<and> create_verb_inflections be_plural (Some be_vocab) (Some be_wiki) = Inr be_table
   \<and> registrations be_plural [ustr ''are''] [ustr ''am'', ustr ''is''] =
       [(ustr ''are'', ustr ''am''), (ustr ''am'', ustr ''are''),
        (ustr ''are'', ustr ''is''), (ustr ''is'', ustr ''are'')]
   \<and> be_table (ustr ''are'') = Some (ustr ''is'')
   \<and> be_table (ustr ''am'') = Some (ustr ''are'')"
proof -
  have wiki: "walk_wiki = ustr ''word pos count'' # tl walk_wiki"
    by (simp add: walk_wiki_def)
  have R: "registered walk_plural [ustr ''walk''] [ustr ''walks''] = {ustr ''walks''}"
    by (auto simp: registered_def walk_plural_def ustr_def)
  have mem: "ustr ''walks'' \<in> registered walk_plural [ustr ''walk''] [ustr ''walks'']"
    unfolding R by simp
  have inj: "inj_on walk_plural (registered walk_plural [ustr ''walk''] [ustr ''walks''])"
    unfolding R by simp
  have disj: "registered walk_plural [ustr ''walk''] [ustr ''walks'']
       \<inter> walk_plural ` registered walk_plural [ustr ''walk''] [ustr ''walks''] = {}"
    unfolding R by (simp add: walk_plural_def ustr_def)
  have pl: "walk_plural (ustr ''walks'') = ustr ''walk''"
    by (simp add: walk_plural_def)
  note walk = create_verb_inflections_table [OF walk_create, unfolded Let_def walk_words]
  from walk mem disj have sing: "walk_table (ustr ''walks'') = Some (walk_plural (ustr ''walks''))"
    by blast
  from walk inj disj have sym: "\<forall>k v. walk_table k = Some v \<longrightarrow> walk_table v = Some k"
    by blast
  from walk have dom: "dom walk_table = registered walk_plural [ustr ''walk''] [ustr ''walks'']
       \<union> walk_plural ` registered walk_plural [ustr ''walk''] [ustr ''walks'']"
    by blast
  from sym sing have plur: "walk_table (walk_plural (ustr ''walks'')) = Some (ustr ''walks'')"
    by blast
  have d: "dom walk_table = {ustr ''walks'', ustr ''walk''}"
    unfolding dom R by (auto simp: walk_plural_def ustr_def)
  have bwiki: "be_wiki = ustr ''word pos count'' # tl be_wiki"
    by (simp add: be_wiki_def)
  have regs: "registrations be_plural [ustr ''are''] [ustr ''am'', ustr ''is''] =
       [(ustr ''are'', ustr ''am''), (ustr ''am'', ustr ''are''),
        (ustr ''are'', ustr ''is''), (ustr ''is'', ustr ''are'')]"
    by (simp add: registrations_def be_plural_def ustr_def)
  note be = create_verb_inflections_table [OF be_create, unfolded Let_def be_words]
  from be have bt: "be_table = map_of (rev (registrations be_plural [ustr ''are'']
      [ustr ''am'', ustr ''is'']))"
    by blast
  have are: "be_table (ustr ''are'') = Some (ustr ''is'')"
    unfolding bt regs by (simp add: ustr_def)
  have am: "be_table (ustr ''am'') = Some (ustr ''are'')"
    unfolding bt regs by (simp add: ustr_def)
  from walk_create wiki mem inj disj sing plur d be_create bwiki regs are am pl
  show ?thesis by simp
qed

text \<open>
  The claim as stated makes the table symmetric for every input. With \<open>am\<close> and
  \<open>is\<close> both tagged \<open>VBZ\<close> the later entry for \<open>are\<close> replaces the earlier one:
  \<open>table[am] = are\<close> and \<open>table[are] = is\<close>.
\<close>

theorem create_verb_inflections_asymmetric:
  "(case create_verb_inflections be_plural (Some be_vocab) (Some be_wiki) of
      Inl e \<Rightarrow> False
    | Inr table \<Rightarrow>
        table (ustr ''am'') = Some (ustr ''are'') \<and>
        table (ustr ''are'') = Some (ustr ''is'') \<and>
        table (ustr ''are'') \<noteq> Some (ustr ''am''))"
  by (simp add: create_verb_inflections_def be_vocab_def be_wiki_def be_plural_def
      strip_def split_ws_def is_space_def ustr_def Let_def)

subsection \<open>Rows of the corpus file\<close>

lemma parse_row_error: "parse_row line = Inl e \<Longrightarrow> e = TypeError"
  by (auto simp: parse_row_def make_RawItem_def split: if_splits)

lemma parse_row_fields:
  "(\<exists>item. parse_row line = Inr item) \<longleftrightarrow> length (split_on 9 (strip line)) = 18"
  by (auto simp: parse_row_def make_RawItem_def)

lemma item_to_sva_condition_error: "item_to_sva_condition py_int item = Inl e \<Longrightarrow> e = ValueError"
  by (auto simp: item_to_sva_condition_def Let_def split: option.splits)

lemma raw_corpora_loop_error:
  "raw_corpora_loop py_int subtasks lines raw = Inl e \<Longrightarrow>
     (e = TypeError \<and> (\<exists>line \<in> set lines. length (split_on 9 (strip line)) \<noteq> 18)) \<or>
     (e = ValueError \<and>
        (\<exists>line \<in> set lines. \<exists>item. parse_row line = Inr item \<and>
           item_to_sva_condition py_int item = Inl ValueError))"
proof (induction lines arbitrary: raw)
  case Nil
  then show ?case by simp
next
  case (Cons line lines)
  show ?case
  proof (cases "parse_row line")
    case (Inl e')
    with Cons.prems have "e = e'" by simp
    with Inl parse_row_error [OF Inl] parse_row_fields [of line] show ?thesis
      by auto
  next
    case (Inr item)
    show ?thesis
    proof (cases "item_to_sva_condition py_int item")
      case (Inl e')
      with Cons.prems Inr have "e = e'" by simp
      with Inl Inr item_to_sva_condition_error [OF Inl] show ?thesis
        by auto
    next
      case cond: (Inr c)
      with Cons.prems Inr have "\<exists>raw'. raw_corpora_loop py_int subtasks lines raw' = Inl e"
        by (auto split: if_splits)
      then obtain raw' where "raw_corpora_loop py_int subtasks lines raw' = Inl e" ..
      from Cons.IH [OF this] show ?thesis by auto
    qed
  qed
qed

lemma raw_corpora_loop_rows:
  "raw_corpora_loop py_int subtasks lines raw = Inr r \<Longrightarrow>
     \<forall>line \<in> set lines. length (split_on 9 (strip line)) = 18"
proof (induction lines arbitrary: raw)
  case Nil
  show ?case by simp
next
  case (Cons line lines)
  from Cons.prems obtain item where item: "parse_row line = Inr item"
    by (cases "parse_row line") auto
  with Cons.prems obtain raw' where "raw_corpora_loop py_int subtasks lines raw' = Inr r"
    by (cases "item_to_sva_condition py_int item") (auto split: if_splits)
  from Cons.IH [OF this] item parse_row_fields [of line] show ?case
    by auto
qed

text \<open>
  Claim C3, amended. When some row after the header does not split on tabs into 18
  fields, the build fails: with the \<open>TypeError\<close> of the constructor of \<open>RawItem\<close>, or with
  the \<open>ValueError\<close> of \<open>int\<close> when an earlier row has an index field that is no
  integer. It is \<open>TypeError\<close> whenever no row of 18 fields has such an index field.
\<close>

theorem create_corpora_bad_row:
  assumes "line \<in> set lines" and "length (split_on 9 (strip line)) \<noteq> 18"
  shows "(create_corpora py_int pl ud vocab (Some (header # lines)) wiki subtasks n = Inl TypeError
          \<or> create_corpora py_int pl ud vocab (Some (header # lines)) wiki subtasks n = Inl ValueError)
       \<and> ((\<forall>l \<in> set lines. \<forall>item. parse_row l = Inr item \<longrightarrow>
              item_to_sva_condition py_int item \<noteq> Inl ValueError) \<longrightarrow>
            create_corpora py_int pl ud vocab (Some (header # lines)) wiki subtasks n = Inl TypeError)"
proof -
  have "\<not> (\<exists>r. raw_corpora_loop py_int subtasks lines [] = Inr r)"
    using assms raw_corpora_loop_rows by blast
  then obtain e where e: "raw_corpora_loop py_int subtasks lines [] = Inl e"
    by (cases "raw_corpora_loop py_int subtasks lines []") auto
  then have cc: "create_corpora py_int pl ud vocab (Some (header # lines)) wiki subtasks n = Inl e"
    by (simp add: create_corpora_def create_raw_corpora_def)
  from raw_corpora_loop_error [OF e] show ?thesis
    unfolding cc by auto
qed

lemma parse_bridge_line: "parse_row bridge_line = Inr bridge_row"
  by (simp add: parse_row_def bridge_line_def bridge_row_def make_RawItem_def split_on_def
      strip_def is_space_def ustr_def)

lemma bridge_row_condition: "item_to_sva_condition ascii_int bridge_row = Inr (ustr ''PS'')"
  by (simp add: item_to_sva_condition_def bridge_row_def ascii_int_def int_space_def strip_def is_space_def
      is_digit_def split_ws_def py_slice_def slice_bound_def pos_mapping_def ustr_def)

lemma short_line_fields: "length (split_on 9 (strip short_line)) = 3"
  by (simp add: short_line_def split_on_def strip_def is_space_def ustr_def)

theorem create_corpora_bad_row_witness:
  "short_line \<in> set [bridge_line, short_line]
   \<and> length (split_on 9 (strip short_line)) \<noteq> 18
   \<and> create_corpora ascii_int walk_plural (\<lambda>s. s) (Some walk_vocab)
        (Some (header_line # [bridge_line, short_line])) (Some walk_wiki) default_subtasks None
       = Inl TypeError"
proof -
  have m: "short_line \<in> set [bridge_line, short_line]" by simp
  have f: "length (split_on 9 (strip short_line)) \<noteq> 18"
    by (simp add: short_line_fields)
  have p: "parse_row short_line = Inl TypeError"
    using f by (simp add: parse_row_def make_RawItem_def)
  have ok: "\<forall>l \<in> set [bridge_line, short_line]. \<forall>item. parse_row l = Inr item \<longrightarrow>
      item_to_sva_condition ascii_int item \<noteq> Inl ValueError"
    using p by (auto simp: parse_bridge_line bridge_row_condition)
  from create_corpora_bad_row [OF m f] ok m f show ?thesis
    by blast
qed

text \<open>
  The claim as stated names \<open>CorpusFormatError\<close>: a row of three fields raises
  \<open>TypeError\<close> instead.
\<close>

theorem create_corpora_raises_TypeError:
  "length (split_on 9 (strip short_line)) = 3
   \<and> create_corpora ascii_int walk_plural (\<lambda>s. s) (Some walk_vocab)
        (Some [header_line, short_line]) (Some walk_wiki) default_subtasks None
       = Inl TypeError
   \<and> create_corpora ascii_int walk_plural (\<lambda>s. s) (Some walk_vocab)
        (Some [header_line, short_line]) (Some walk_wiki) default_subtasks None
       \<noteq> Inl CorpusFormatError"
  by (simp add: short_line_fields create_corpora_def create_raw_corpora_def parse_row_def
      make_RawItem_def)

subsection \<open>The context of an example\<close>

lemma py_slice_to_take:
  assumes "1 \<le> b"
  shows "py_slice_to xs (b - 1) = take (nat (b - 1)) xs"
  using assms by (simp add: py_slice_to_def slice_bound_def min_def)

lemma not_all_latin1:
  "(\<not> list_all (\<lambda>c. c < 256) s) \<longleftrightarrow> (\<exists>c \<in> set s. (256::nat) \<le> c)"
  by (auto simp: list_all_iff not_less)

text \<open>
  Claim C5, amended. When the verb index is an integer and the verb has an entry in the
  table, the sentence is transliterated before it is split if and only if some character
  has a code point of 256 or more, and the context is the slice of the split tokens up
  to \<open>verb_index - 1\<close>: for a verb index of at least 1, the tokens at the positions 0
  to \<open>verb_index - 2\<close>.
\<close>

theorem item_to_example_context:
  assumes "py_int (verb_index item) = Some vi" and "table (verb item) = Some opposite"
  shows "item_to_example py_int ud item table =
           Inr (Some \<lparr>sen = py_slice_to
                          (split_ws (if \<exists>c \<in> set (orig_sentence item). 256 \<le> c
                                     then ud (orig_sentence item) else orig_sentence item))
                          (vi - 1),
                      token = verb item, wrong_token = opposite\<rparr>)
       \<and> (1 \<le> vi \<longrightarrow>
            (\<forall>toks :: ustring list. py_slice_to toks (vi - 1) = take (nat (vi - 1)) toks))"
  using assms by (simp add: item_to_example_def not_all_latin1 py_slice_to_take)

theorem item_to_example_context_witness:
  "ascii_int (verb_index quote_row) = Some 4
   \<and> verbs_table (verb quote_row) = Some (ustr ''bark'')
   \<and> (1::int) \<le> 4
   \<and> item_to_example ascii_int ascii_fold quote_row verbs_table =
       Inr (Some \<lparr>sen = [ustr ''the'', ustr ''man'' @ [39] @ ustr ''s'', ustr ''dog''],
                  token = ustr ''barks'', wrong_token = ustr ''bark''\<rparr>)"
proof -
  have v: "ascii_int (verb_index quote_row) = Some 4"
    by (simp add: quote_row_def ascii_int_def int_space_def strip_def is_space_def is_digit_def ustr_def)
  have t: "verbs_table (verb quote_row) = Some (ustr ''bark'')"
    by (simp add: quote_row_def verbs_table_def ustr_def)
  have big: "\<exists>c \<in> set (orig_sentence quote_row). 256 \<le> c"
    by (simp add: quote_row_def)
  have toks: "split_ws (ascii_fold (orig_sentence quote_row)) =
      [ustr ''the'', ustr ''man'' @ [39] @ ustr ''s'', ustr ''dog'', ustr ''barks'']"
    by (simp add: quote_row_def ascii_fold_def split_ws_def is_space_def ustr_def)
  from item_to_example_context [where py_int = ascii_int and item = quote_row
      and table = verbs_table and ud = ascii_fold, OF v t] big toks v t show ?thesis
    by (simp add: quote_row_def)
qed

text \<open>
  The claim as stated transliterates as soon as a character exceeds the ASCII range.
  The character 233 does, and the sentence is left as it is: the context keeps it,
  where the transliterated sentence has \<open>cafe\<close>.
\<close>

theorem item_to_example_keeps_latin1:
  "233 \<in> set (orig_sentence cafe_row) \<and> (127::nat) < 233
   \<and> item_to_example ascii_int ascii_fold cafe_row verbs_table =
       Inr (Some \<lparr>sen = [ustr ''the'', ustr ''caf'' @ [233]],
                  token = ustr ''opens'', wrong_token = ustr ''open''\<rparr>)
   \<and> take 2 (split_ws (ascii_fold (orig_sentence cafe_row))) = [ustr ''the'', ustr ''cafe'']"
  by (simp add: item_to_example_def cafe_row_def verbs_table_def ascii_fold_def ascii_int_def int_space_def
      strip_def is_space_def is_digit_def split_ws_def py_slice_to_def slice_bound_def ustr_def)

subsection \<open>The corpora of a build\<close>

lemma item_to_example_total:
  "py_int (verb_index item) = Some vi \<Longrightarrow>
     item_to_example py_int ud item table = Inr (example_of py_int ud table item)"
  by (simp add: example_of_def item_to_example_def Let_def split: option.splits)

lemma example_of_None:
  "py_int (verb_index item) = Some vi \<Longrightarrow>
     example_of py_int ud table item = None \<longleftrightarrow> table (verb item) = None"
  by (simp add: example_of_def item_to_example_def Let_def split: option.splits)

lemma examples_of_map:
  "\<forall>item \<in> set items. py_int (verb_index item) \<noteq> None \<Longrightarrow>
     examples_of py_int ud table items = Inr (map (example_of py_int ud table) items)"
proof (induction items)
  case Nil
  show ?case by simp
next
  case (Cons item items)
  then obtain vi where "py_int (verb_index item) = Some vi" by auto
  from item_to_example_total [where py_int = py_int, OF this] Cons show ?case by simp
qed

lemma map_filter_id_map: "List.map_filter (\<lambda>x. x) (map f xs) = List.map_filter f xs"
  by (induction xs) (simp_all split: option.splits)

lemma create_corpus_surviving:
  assumes "\<forall>item \<in> set items. py_int (verb_index item) \<noteq> None"
  shows "create_corpus py_int ud items table n =
           Inr (case n of None \<Rightarrow> surviving py_int ud table items
                | Some k \<Rightarrow> py_slice_to (surviving py_int ud table items) k)"
  using examples_of_map [OF assms, of ud table]
  by (cases n) (simp_all add: create_corpus_def surviving_def map_filter_id_map Let_def)

lemma length_map_filter:
  "length (List.map_filter f xs) = length xs - length (filter (\<lambda>x. f x = None) xs)"
proof (induction xs)
  case Nil
  show ?case by simp
next
  case (Cons x xs)
  have "length (filter (\<lambda>x. f x = None) xs) \<le> length xs" by simp
  with Cons show ?case
    by (auto simp: Suc_diff_le split: option.splits)
qed

lemma length_surviving:
  assumes "\<forall>item \<in> set items. py_int (verb_index item) \<noteq> None"
  shows "length (surviving py_int ud table items) =
           length items - length (filter (\<lambda>item. table (verb item) = None) items)"
proof -
  have "filter (\<lambda>item. example_of py_int ud table item = None) items =
        filter (\<lambda>item. table (verb item) = None) items"
    using assms by (intro filter_cong refl) (auto simp: example_of_None)
  then show ?thesis
    by (simp add: surviving_def length_map_filter)
qed

lemma classified_index:
  "item_to_sva_condition py_int item = Inr c \<Longrightarrow> py_int (verb_index item) \<noteq> None"
  by (auto simp: item_to_sva_condition_def Let_def split: option.splits)

lemma retained_index:
  "\<forall>item \<in> set (retained py_int lines c). py_int (verb_index item) \<noteq> None"
  using classified_index by (auto simp: retained_def)

lemma map_of_setdefault_append:
  "map_of (setdefault_append k v raw) = (map_of raw)(k \<mapsto> items_of raw k @ [v])"
  by (induction raw) (auto simp: items_of_def fun_eq_iff)

lemma keys_setdefault_append:
  "fst ` set (setdefault_append k v raw) = insert k (fst ` set raw)"
proof (induction raw)
  case Nil
  show ?case by simp
next
  case (Cons p raw)
  obtain k' vs where p: "p = (k', vs)" by (cases p)
  show ?case
  proof (cases "k' = k")
    case True
    with p show ?thesis by simp
  next
    case False
    with p Cons.IH show ?thesis by (simp add: insert_commute)
  qed
qed

lemma distinct_setdefault_append:
  "distinct (map fst raw) \<Longrightarrow> distinct (map fst (setdefault_append k v raw))"
proof (induction raw)
  case Nil
  show ?case by simp
next
  case (Cons p raw)
  obtain k' vs where p: "p = (k', vs)" by (cases p)
  show ?case
  proof (cases "k' = k")
    case True
    with Cons.prems p show ?thesis by simp
  next
    case False
    have "fst ` set (setdefault_append k v raw) = insert k (fst ` set raw)"
      by (rule keys_setdefault_append)
    with Cons p False show ?thesis by auto
  qed
qed

lemma items_of_setdefault_append:
  "items_of (setdefault_append k v raw) c =
     (if c = k then items_of raw k @ [v] else items_of raw c)"
  by (simp add: items_of_def map_of_setdefault_append)

lemma rows_Cons:
  "parse_row line = Inr item \<Longrightarrow> rows (line # lines) = item # rows lines"
  by (simp add: rows_def)

lemma retained_Cons:
  "parse_row line = Inr item \<Longrightarrow>
     retained py_int (line # lines) c =
       (if item_to_sva_condition py_int item = Inr c then item # retained py_int lines c
        else retained py_int lines c)"
  by (simp add: retained_def rows_Cons)

lemma raw_corpora_loop_step:
  assumes "raw_corpora_loop py_int subtasks (line # lines) raw = Inr r"
  obtains item c where "parse_row line = Inr item" "item_to_sva_condition py_int item = Inr c"
    "raw_corpora_loop py_int subtasks lines
       (if c \<in> set subtasks then setdefault_append c item raw else raw) = Inr r"
proof -
  from assms obtain item where item: "parse_row line = Inr item"
    by (cases "parse_row line") auto
  with assms obtain c where c: "item_to_sva_condition py_int item = Inr c"
    by (cases "item_to_sva_condition py_int item") auto
  with assms item have "raw_corpora_loop py_int subtasks lines
       (if c \<in> set subtasks then setdefault_append c item raw else raw) = Inr r"
    by (simp split: if_splits)
  with item c that show thesis by blast
qed

lemma raw_corpora_loop_items:
  "raw_corpora_loop py_int subtasks lines raw = Inr r \<Longrightarrow>
     items_of r c = items_of raw c @ (if c \<in> set subtasks then retained py_int lines c else [])"
proof (induction lines arbitrary: raw)
  case Nil
  then show ?case by (simp add: retained_def rows_def)
next
  case (Cons line lines)
  from Cons.prems obtain item c' where
    item: "parse_row line = Inr item" and c': "item_to_sva_condition py_int item = Inr c'"
    and rest: "raw_corpora_loop py_int subtasks lines
       (if c' \<in> set subtasks then setdefault_append c' item raw else raw) = Inr r"
    by (rule raw_corpora_loop_step)
  from Cons.IH [OF rest] show ?case
    using c' by (auto simp: retained_Cons [OF item] items_of_setdefault_append)
qed

lemma raw_corpora_loop_keys:
  "raw_corpora_loop py_int subtasks lines raw = Inr r \<Longrightarrow>
     fst ` set r = fst ` set raw \<union> {c \<in> set subtasks. retained py_int lines c \<noteq> []}"
proof (induction lines arbitrary: raw)
  case Nil
  then show ?case by (simp add: retained_def rows_def)
next
  case (Cons line lines)
  from Cons.prems obtain item c' where
    item: "parse_row line = Inr item" and c': "item_to_sva_condition py_int item = Inr c'"
    and rest: "raw_corpora_loop py_int subtasks lines
       (if c' \<in> set subtasks then setdefault_append c' item raw else raw) = Inr r"
    by (rule raw_corpora_loop_step)
  from Cons.IH [OF rest] show ?case
    using c' by (auto simp: retained_Cons [OF item] keys_setdefault_append split: if_splits)
qed

lemma raw_corpora_loop_distinct:
  "raw_corpora_loop py_int subtasks lines raw = Inr r \<Longrightarrow> distinct (map fst raw) \<Longrightarrow>
     distinct (map fst r)"
proof (induction lines arbitrary: raw)
  case Nil
  then show ?case by simp
next
  case (Cons line lines)
  from Cons.prems(1) obtain item c' where
    rest: "raw_corpora_loop py_int subtasks lines
       (if c' \<in> set subtasks then setdefault_append c' item raw else raw) = Inr r"
    by (rule raw_corpora_loop_step)
  have "distinct (map fst (if c' \<in> set subtasks then setdefault_append c' item raw else raw))"
    using Cons.prems(2) by (simp add: distinct_setdefault_append)
  from Cons.IH [OF rest this] show ?case .
qed

lemma create_raw_corpora_entry:
  assumes "create_raw_corpora py_int (Some (header # lines)) subtasks = Inr raw"
    and "(c, items) \<in> set raw"
  shows "items = retained py_int lines c \<and> c \<in> set subtasks \<and> retained py_int lines c \<noteq> []"
proof -
  from assms(1) have loop: "raw_corpora_loop py_int subtasks lines [] = Inr raw"
    by (simp add: create_raw_corpora_def)
  have "distinct (map fst raw)"
    using raw_corpora_loop_distinct [OF loop] by simp
  with assms(2) have "map_of raw c = Some items" by simp
  then have "items_of raw c = items" by (simp add: items_of_def)
  with raw_corpora_loop_items [OF loop, of c]
  have items: "items = (if c \<in> set subtasks then retained py_int lines c else [])"
    by (simp add: items_of_def)
  have "c \<in> fst ` set raw" using assms(2) by force
  with raw_corpora_loop_keys [OF loop] have "c \<in> set subtasks" "retained py_int lines c \<noteq> []"
    by auto
  with items show ?thesis by simp
qed

lemma set_dict_set: "set (dict_set k v d) \<subseteq> insert (k, v) (set d)"
proof (induction d)
  case Nil
  show ?case by simp
next
  case (Cons p d)
  obtain k' v' where p: "p = (k', v')" by (cases p)
  from Cons show ?case unfolding p by auto
qed

lemma corpus_entries_Cons:
  "corpus_entries ((k, inner) # corpora) = {(k, c, v) | c v. (c, v) \<in> set inner} \<union> corpus_entries corpora"
  by (auto simp: corpus_entries_def)

lemma corpus_entries_setdefault_set:
  "corpus_entries (setdefault_set k1 k2 v corpora) \<subseteq> insert (k1, k2, v) (corpus_entries corpora)"
proof (induction corpora)
  case Nil
  show ?case by (auto simp: corpus_entries_def)
next
  case (Cons p corpora)
  obtain k' inner where p: "p = (k', inner)" by (cases p)
  show ?case
  proof (cases "k' = k1")
    case True
    then show ?thesis
      unfolding p using set_dict_set [of k2 v inner] by (auto simp: corpus_entries_Cons)
  next
    case False
    then show ?thesis
      unfolding p using Cons.IH by (auto simp: corpus_entries_Cons)
  qed
qed

lemma corpora_loop_corpus_entries:
  "corpora_loop py_int ud table n raw acc = Inr out \<Longrightarrow> (k, c, corpus) \<in> corpus_entries out \<Longrightarrow>
     (k, c, corpus) \<in> corpus_entries acc \<or>
     (\<exists>items. (c, items) \<in> set raw \<and> k = str_nat (length c) \<and>
        create_corpus py_int ud items table n = Inr corpus)"
proof (induction raw arbitrary: acc)
  case Nil
  then show ?case by simp
next
  case (Cons p raw)
  obtain c' items' where p: "p = (c', items')" by (cases p)
  from Cons.prems(1) obtain corpus' where
    cc: "create_corpus py_int ud items' table n = Inr corpus'"
    and rest: "corpora_loop py_int ud table n raw
        (setdefault_set (str_nat (length c')) c' corpus' acc) = Inr out"
    unfolding p by (cases "create_corpus py_int ud items' table n") (auto simp: Let_def)
  from Cons.IH [OF rest Cons.prems(2)]
  show ?case
  proof
    assume "(k, c, corpus) \<in> corpus_entries (setdefault_set (str_nat (length c')) c' corpus' acc)"
    with corpus_entries_setdefault_set
    have "(k, c, corpus) = (str_nat (length c'), c', corpus') \<or> (k, c, corpus) \<in> corpus_entries acc"
      by blast
    with cc show ?thesis unfolding p by auto
  next
    assume "\<exists>items. (c, items) \<in> set raw \<and> k = str_nat (length c) \<and>
        create_corpus py_int ud items table n = Inr corpus"
    then show ?thesis by auto
  qed
qed

lemma create_corpora_entry:
  assumes "create_corpora py_int pl ud vocab (Some (header # lines)) wiki subtasks n = Inr corpora"
    and "(k, inner) \<in> set corpora" and "(c, corpus) \<in> set inner"
  shows "\<exists>table. create_verb_inflections pl vocab wiki = Inr table \<and>
           k = str_nat (length c) \<and> c \<in> set subtasks \<and> retained py_int lines c \<noteq> [] \<and>
           corpus = (case n of None \<Rightarrow> surviving py_int ud table (retained py_int lines c)
                     | Some N \<Rightarrow> py_slice_to (surviving py_int ud table (retained py_int lines c)) N)"
proof -
  from assms(1) obtain raw where raw: "create_raw_corpora py_int (Some (header # lines)) subtasks = Inr raw"
    by (cases "create_raw_corpora py_int (Some (header # lines)) subtasks")
      (auto simp: create_corpora_def)
  with assms(1) obtain table where table: "create_verb_inflections pl vocab wiki = Inr table"
    by (cases "create_verb_inflections pl vocab wiki") (auto simp: create_corpora_def)
  with assms(1) raw have loop: "corpora_loop py_int ud table n raw [] = Inr corpora"
    by (simp add: create_corpora_def)
  have "(k, c, corpus) \<in> corpus_entries corpora"
    using assms(2,3) by (auto simp: corpus_entries_def)
  from corpora_loop_corpus_entries [OF loop this] obtain items where
    items: "(c, items) \<in> set raw" and k: "k = str_nat (length c)"
    and cc: "create_corpus py_int ud items table n = Inr corpus"
    by (auto simp: corpus_entries_def)
  from create_raw_corpora_entry [OF raw items]
  have ret: "items = retained py_int lines c" "c \<in> set subtasks" "retained py_int lines c \<noteq> []"
    by simp_all
  from cc have "corpus = (case n of None \<Rightarrow> surviving py_int ud table (retained py_int lines c)
      | Some N \<Rightarrow> py_slice_to (surviving py_int ud table (retained py_int lines c)) N)"
    unfolding ret(1) by (simp add: create_corpus_surviving [OF retained_index])
  with table k ret show ?thesis by blast
qed

lemma create_corpora_file:
  assumes "create_corpora py_int pl ud vocab corpus_file wiki subtasks n = Inr corpora"
  shows "\<exists>header lines. corpus_file = Some (header # lines)"
proof (cases corpus_file)
  case None
  with assms show ?thesis by (simp add: create_corpora_def create_raw_corpora_def)
next
  case (Some ls)
  with assms show ?thesis
    by (cases ls) (simp_all add: create_corpora_def create_raw_corpora_def)
qed

lemma py_slice_to_nonneg:
  "0 \<le> N \<Longrightarrow> py_slice_to xs N = take (nat N) xs"
  by (simp add: py_slice_to_def slice_bound_def min_def)

lemma corpora_loop_total:
  "\<forall>(c, items) \<in> set raw. \<forall>item \<in> set items. py_int (verb_index item) \<noteq> None \<Longrightarrow>
     \<exists>out. corpora_loop py_int ud table n raw acc = Inr out"
proof (induction raw arbitrary: acc)
  case Nil
  show ?case by simp
next
  case (Cons p raw)
  obtain c items where p: "p = (c, items)" by (cases p)
  from Cons.prems have i: "\<forall>item \<in> set items. py_int (verb_index item) \<noteq> None"
    and r: "\<forall>(c, items) \<in> set raw. \<forall>item \<in> set items. py_int (verb_index item) \<noteq> None"
    unfolding p by auto
  from Cons.IH [OF r] show ?case
    unfolding p by (simp add: create_corpus_surviving [OF i] Let_def)
qed

lemma create_corpora_total:
  assumes "create_corpora py_int pl ud vocab corpus_file wiki subtasks n = Inr corpora"
  shows "\<exists>out. create_corpora py_int pl ud vocab corpus_file wiki subtasks n' = Inr out"
proof -
  from create_corpora_file [OF assms] obtain header lines where
    f: "corpus_file = Some (header # lines)" by blast
  from assms obtain raw where raw: "create_raw_corpora py_int corpus_file subtasks = Inr raw"
    by (cases "create_raw_corpora py_int corpus_file subtasks") (auto simp: create_corpora_def)
  with assms obtain table where table: "create_verb_inflections pl vocab wiki = Inr table"
    by (cases "create_verb_inflections pl vocab wiki") (auto simp: create_corpora_def)
  have "\<forall>(c, items) \<in> set raw. \<forall>item \<in> set items. py_int (verb_index item) \<noteq> None"
    using create_raw_corpora_entry [OF raw [unfolded f]] retained_index by blast
  from corpora_loop_total [OF this] raw table show ?thesis
    by (simp add: create_corpora_def)
qed

lemma PS_requested: "ustr ''PS'' \<in> set default_subtasks"
  by (simp add: default_subtasks_def ustr_def)

lemma raw_one:
  "create_raw_corpora ascii_int (Some [header_line, bridge_line]) default_subtasks =
     Inr [(ustr ''PS'', [bridge_row])]"
  by (simp add: create_raw_corpora_def parse_bridge_line bridge_row_condition PS_requested)

lemma raw_two:
  "create_raw_corpora ascii_int (Some [header_line, bridge_line, bridge_line]) default_subtasks =
     Inr [(ustr ''PS'', [bridge_row, bridge_row])]"
  by (simp add: create_raw_corpora_def parse_bridge_line bridge_row_condition PS_requested)

lemma retained_one: "retained ascii_int [bridge_line] (ustr ''PS'') = [bridge_row]"
  by (simp add: retained_def rows_def parse_bridge_line bridge_row_condition)

lemma retained_two: "retained ascii_int [bridge_line, bridge_line] (ustr ''PS'') = [bridge_row, bridge_row]"
  by (simp add: retained_def rows_def parse_bridge_line bridge_row_condition)

lemma walk_inflections:
  "create_verb_inflections walk_plural (Some walk_vocab) (Some walk_wiki) = Inr walk_table"
  using walk_create by (simp add: walk_wiki_def)

lemma be_inflections:
  "create_verb_inflections be_plural (Some be_vocab) (Some be_wiki) = Inr be_table"
  by (simp add: create_verb_inflections_def be_vocab_def be_wiki_def be_plural_def
      be_table_def strip_def split_ws_def is_space_def ustr_def Let_def)

lemma bridge_walk_example:
  "item_to_example ascii_int (\<lambda>s. s) bridge_row walk_table = Inr (Some bridge_example)"
  by (simp add: item_to_example_def bridge_row_def walk_table_def bridge_example_def
      ascii_int_def int_space_def strip_def is_space_def is_digit_def split_ws_def py_slice_to_def
      slice_bound_def ustr_def)

lemma bridge_be_example:
  "item_to_example ascii_int (\<lambda>s. s) bridge_row be_table = Inr None"
  by (simp add: item_to_example_def bridge_row_def be_table_def
      ascii_int_def int_space_def strip_def is_space_def is_digit_def ustr_def)

lemma attractors_PS: "str_nat (length (ustr ''PS'')) = ustr ''2''"
  by (simp add: str_nat.simps ustr_def)

lemma walk_build_two:
  "create_corpora ascii_int walk_plural (\<lambda>s. s) (Some walk_vocab)
     (Some (header_line # [bridge_line, bridge_line]))
     (Some walk_wiki) default_subtasks (Some 1) = Inr walk_corpora"
  by (simp add: create_corpora_def raw_two walk_inflections create_corpus_def
      bridge_walk_example attractors_PS walk_corpora_def py_slice_to_def slice_bound_def)

lemma be_build:
  "create_corpora ascii_int be_plural (\<lambda>s. s) (Some be_vocab) (Some (header_line # [bridge_line]))
     (Some be_wiki) default_subtasks None = Inr empty_corpora"
  by (simp add: create_corpora_def raw_one be_inflections create_corpus_def
      bridge_be_example attractors_PS empty_corpora_def)

lemma map_of_dict_set: "map_of (dict_set k v d) = (map_of d)(k \<mapsto> v)"
proof (induction d)
  case Nil
  show ?case by simp
next
  case (Cons p d)
  obtain k' v' where p: "p = (k', v')" by (cases p)
  from Cons show ?case unfolding p by (auto simp: fun_eq_iff)
qed

lemma corpora_get_Cons:
  "corpora_get ((k', inner) # m) k c = (if k = k' then map_of inner c else corpora_get m k c)"
  by (simp add: corpora_get_def)

lemma corpora_get_setdefault_set:
  "corpora_get (setdefault_set k1 k2 v m) k c =
     (if k = k1 \<and> c = k2 then Some v else corpora_get m k c)"
proof (induction m)
  case Nil
  show ?case by (simp add: corpora_get_def)
next
  case (Cons p m)
  obtain k' inner where p: "p = (k', inner)" by (cases p)
  show ?case
  proof (cases "k' = k1")
    case True
    then show ?thesis
      unfolding p by (simp add: corpora_get_Cons map_of_dict_set)
  next
    case False
    with Cons.IH show ?thesis
      unfolding p by (auto simp: corpora_get_Cons)
  qed
qed

lemma corpora_loop_get:
  assumes "\<forall>(c, items) \<in> set raw. \<forall>item \<in> set items. py_int (verb_index item) \<noteq> None"
    and "distinct (map fst raw)"
    and "corpora_loop py_int ud table n raw acc = Inr out"
  shows "corpora_get out k c =
     (case map_of raw c of
        None \<Rightarrow> corpora_get acc k c
      | Some items \<Rightarrow>
          if k = str_nat (length c)
          then Some (case n of None \<Rightarrow> surviving py_int ud table items
                     | Some N \<Rightarrow> py_slice_to (surviving py_int ud table items) N)
          else corpora_get acc k c)"
  using assms
proof (induction raw arbitrary: acc)
  case Nil
  then show ?case by simp
next
  case (Cons p raw)
  obtain c' items' where p: "p = (c', items')" by (cases p)
  let ?corpus = "case n of None \<Rightarrow> surviving py_int ud table items'
      | Some N \<Rightarrow> py_slice_to (surviving py_int ud table items') N"
  let ?acc = "setdefault_set (str_nat (length c')) c' ?corpus acc"
  from Cons.prems(1) have i: "\<forall>item \<in> set items'. py_int (verb_index item) \<noteq> None"
    and r: "\<forall>(c, items) \<in> set raw. \<forall>item \<in> set items. py_int (verb_index item) \<noteq> None"
    unfolding p by auto
  from Cons.prems(2) have d: "distinct (map fst raw)" and fresh: "c' \<notin> fst ` set raw"
    unfolding p by auto
  have rest: "corpora_loop py_int ud table n raw ?acc = Inr out"
    using Cons.prems(3) unfolding p
    by (simp add: create_corpus_surviving [OF i] Let_def)
  note IH = Cons.IH [OF r d rest]
  show ?case
  proof (cases "c = c'")
    case True
    with fresh have "map_of raw c = None"
      by (simp add: map_of_eq_None_iff)
    with IH True show ?thesis
      unfolding p by (simp add: corpora_get_setdefault_set)
  next
    case False
    with IH show ?thesis
      unfolding p by (simp add: corpora_get_setdefault_set split: option.splits)
  qed
qed

lemma create_raw_corpora_map:
  assumes "create_raw_corpora py_int (Some (header # lines)) subtasks = Inr raw"
  shows "distinct (map fst raw)"
    and "map_of raw c =
           (if c \<in> set subtasks \<and> retained py_int lines c \<noteq> []
            then Some (retained py_int lines c) else None)"
proof -
  from assms have loop: "raw_corpora_loop py_int subtasks lines [] = Inr raw"
    by (simp add: create_raw_corpora_def)
  show d: "distinct (map fst raw)"
    using raw_corpora_loop_distinct [OF loop] by simp
  have keys: "fst ` set raw = {c \<in> set subtasks. retained py_int lines c \<noteq> []}"
    using raw_corpora_loop_keys [OF loop] by simp
  show "map_of raw c =
           (if c \<in> set subtasks \<and> retained py_int lines c \<noteq> []
            then Some (retained py_int lines c) else None)"
  proof (cases "c \<in> fst ` set raw")
    case True
    then obtain items where items: "(c, items) \<in> set raw" by force
    from create_raw_corpora_entry [OF assms items] d items show ?thesis
      by simp
  next
    case False
    then have "map_of raw c = None" by (simp add: map_of_eq_None_iff)
    with False keys show ?thesis by auto
  qed
qed

lemma py_slice_to_Nil: "py_slice_to [] N = []"
  by (simp add: py_slice_to_def)

lemma parse_dog_line: "parse_row dog_line = Inr dog_row"
  by (simp add: parse_row_def dog_line_def dog_row_def make_RawItem_def split_on_def
      strip_def is_space_def ustr_def)

lemma dog_row_condition: "item_to_sva_condition ascii_int dog_row = Inr (ustr ''SS'')"
  by (simp add: item_to_sva_condition_def dog_row_def ascii_int_def int_space_def strip_def
      is_space_def is_digit_def split_ws_def py_slice_def slice_bound_def pos_mapping_def ustr_def)

lemma SS_requested: "ustr ''SS'' \<in> set default_subtasks"
  by (simp add: default_subtasks_def ustr_def)

lemma conditions_differ: "ustr ''PS'' \<noteq> ustr ''SS''"
  by (simp add: ustr_def)

lemma attractors_SS: "str_nat (length (ustr ''SS'')) = ustr ''2''"
  by (simp add: str_nat.simps ustr_def)

lemma raw_pair:
  "create_raw_corpora ascii_int (Some [header_line, bridge_line, dog_line]) default_subtasks =
     Inr [(ustr ''PS'', [bridge_row]), (ustr ''SS'', [dog_row])]"
  using conditions_differ
  by (simp add: create_raw_corpora_def parse_bridge_line bridge_row_condition PS_requested
      parse_dog_line dog_row_condition SS_requested)

lemma retained_pair:
  "retained ascii_int [bridge_line, dog_line] (ustr ''PS'') = [bridge_row]"
  "retained ascii_int [bridge_line, dog_line] (ustr ''SS'') = [dog_row]"
  using conditions_differ
  by (simp_all add: retained_def rows_def parse_bridge_line bridge_row_condition
      parse_dog_line dog_row_condition)

lemma dog_walk_example:
  "item_to_example ascii_int (\<lambda>s. s) dog_row walk_table = Inr None"
  by (simp add: item_to_example_def dog_row_def walk_table_def
      ascii_int_def int_space_def is_space_def is_digit_def ustr_def)

lemma surviving_pair:
  "surviving ascii_int (\<lambda>s. s) walk_table [bridge_row] = [bridge_example]"
  "surviving ascii_int (\<lambda>s. s) walk_table [dog_row] = []"
  by (simp_all add: surviving_def example_of_def bridge_walk_example dog_walk_example)

lemma pair_build:
  "create_corpora ascii_int walk_plural (\<lambda>s. s) (Some walk_vocab)
     (Some (header_line # [bridge_line, dog_line])) (Some walk_wiki) default_subtasks None
     = Inr two_corpora"
  using conditions_differ
  by (simp add: create_corpora_def raw_pair walk_inflections create_corpus_def
      bridge_walk_example dog_walk_example attractors_PS attractors_SS two_corpora_def)

text \<open>
  Claim C6, amended. The two-level mapping of a build holds a corpus under the keys
  \<open>(k, c)\<close> exactly when \<open>c\<close> is a requested condition with at least one retained row and
  \<open>k\<close> is the decimal string of the length of \<open>c\<close>, and the corpus is then the list of the
  surviving examples of \<open>c\<close>, cut to the cap if there is one. So a requested condition
  without a retained row is absent, and a requested condition with retained rows and no
  surviving example is present with an empty corpus. Every pair of the mapping sits under
  the decimal string of the length of its condition.
\<close>

theorem corpora_grouping:
  assumes "create_corpora py_int pl ud vocab (Some (header # lines)) wiki subtasks n = Inr corpora"
  shows "\<exists>table. create_verb_inflections pl vocab wiki = Inr table \<and>
           (\<forall>k c. corpora_get corpora k c =
              (if k = str_nat (length c) \<and> c \<in> set subtasks \<and> retained py_int lines c \<noteq> []
               then Some (case n of
                            None \<Rightarrow> surviving py_int ud table (retained py_int lines c)
                          | Some N \<Rightarrow>
                              py_slice_to (surviving py_int ud table (retained py_int lines c)) N)
               else None)) \<and>
           (\<forall>c. c \<in> set subtasks \<and> retained py_int lines c \<noteq> [] \<and>
                surviving py_int ud table (retained py_int lines c) = [] \<longrightarrow>
                corpora_get corpora (str_nat (length c)) c = Some []) \<and>
           (\<forall>k inner c corpus. (k, inner) \<in> set corpora \<and> (c, corpus) \<in> set inner \<longrightarrow>
              k = str_nat (length c) \<and> c \<in> set subtasks \<and> retained py_int lines c \<noteq> [])"
proof -
  from assms obtain raw where
    raw: "create_raw_corpora py_int (Some (header # lines)) subtasks = Inr raw"
    by (cases "create_raw_corpora py_int (Some (header # lines)) subtasks")
      (auto simp: create_corpora_def)
  with assms obtain table where table: "create_verb_inflections pl vocab wiki = Inr table"
    by (cases "create_verb_inflections pl vocab wiki") (auto simp: create_corpora_def)
  with assms raw have loop: "corpora_loop py_int ud table n raw [] = Inr corpora"
    by (simp add: create_corpora_def)
  have parsed: "\<forall>(c, items) \<in> set raw. \<forall>item \<in> set items. py_int (verb_index item) \<noteq> None"
    using create_raw_corpora_entry [OF raw] retained_index by blast
  have get: "corpora_get corpora k c =
      (if k = str_nat (length c) \<and> c \<in> set subtasks \<and> retained py_int lines c \<noteq> []
       then Some (case n of
                    None \<Rightarrow> surviving py_int ud table (retained py_int lines c)
                  | Some N \<Rightarrow>
                      py_slice_to (surviving py_int ud table (retained py_int lines c)) N)
       else None)" for k c
    unfolding corpora_loop_get [OF parsed create_raw_corpora_map(1) [OF raw] loop]
      create_raw_corpora_map(2) [OF raw]
    by (simp add: corpora_get_def)
  have empty: "corpora_get corpora (str_nat (length c)) c = Some []"
    if "c \<in> set subtasks \<and> retained py_int lines c \<noteq> [] \<and>
        surviving py_int ud table (retained py_int lines c) = []" for c
    using that unfolding get by (cases n) (simp_all add: py_slice_to_Nil)
  have only: "k = str_nat (length c) \<and> c \<in> set subtasks \<and> retained py_int lines c \<noteq> []"
    if "(k, inner) \<in> set corpora \<and> (c, corpus) \<in> set inner" for k inner c corpus
    using create_corpora_entry [OF assms] that by blast
  from table get empty only show ?thesis by blast
qed

theorem corpora_grouping_witness:
  "create_corpora ascii_int walk_plural (\<lambda>s. s) (Some walk_vocab)
     (Some (header_line # [bridge_line, dog_line])) (Some walk_wiki) default_subtasks None
     = Inr two_corpora
   \<and> ustr ''SS'' \<in> set default_subtasks
   \<and> retained ascii_int [bridge_line, dog_line] (ustr ''SS'') = [dog_row]
   \<and> surviving ascii_int (\<lambda>s. s) walk_table
        (retained ascii_int [bridge_line, dog_line] (ustr ''SS'')) = []
   \<and> corpora_get two_corpora (ustr ''2'') (ustr ''SS'') = Some []
   \<and> corpora_get two_corpora (ustr ''2'') (ustr ''PS'') = Some [bridge_example]
   \<and> corpora_get two_corpora (ustr ''2'') (ustr ''SP'') = None
   \<and> (ustr ''2'', [(ustr ''PS'', [bridge_example]), (ustr ''SS'', [])]) \<in> set two_corpora
   \<and> (ustr ''SS'', []) \<in> set [(ustr ''PS'', [bridge_example]), (ustr ''SS'', [])]
   \<and> ustr ''2'' = str_nat (length (ustr ''SS''))"
proof -
  from corpora_grouping [OF pair_build] walk_inflections
  have get: "\<forall>k c. corpora_get two_corpora k c =
      (if k = str_nat (length c) \<and> c \<in> set default_subtasks \<and>
          retained ascii_int [bridge_line, dog_line] c \<noteq> []
       then Some (surviving ascii_int (\<lambda>s. s) walk_table
                    (retained ascii_int [bridge_line, dog_line] c))
       else None)"
    and empty: "\<forall>c. c \<in> set default_subtasks \<and>
        retained ascii_int [bridge_line, dog_line] c \<noteq> [] \<and>
        surviving ascii_int (\<lambda>s. s) walk_table
          (retained ascii_int [bridge_line, dog_line] c) = [] \<longrightarrow>
        corpora_get two_corpora (str_nat (length c)) c = Some []"
    and only: "\<forall>k inner c corpus. (k, inner) \<in> set two_corpora \<and> (c, corpus) \<in> set inner \<longrightarrow>
        k = str_nat (length c) \<and> c \<in> set default_subtasks \<and>
        retained ascii_int [bridge_line, dog_line] c \<noteq> []"
    by auto
  have k: "(ustr ''2'', [(ustr ''PS'', [bridge_example]), (ustr ''SS'', [])]) \<in> set two_corpora"
    by (simp add: two_corpora_def)
  have c: "(ustr ''SS'', []) \<in> set [(ustr ''PS'', [bridge_example]), (ustr ''SS'', [])]"
    by simp
  have s: "surviving ascii_int (\<lambda>s. s) walk_table
        (retained ascii_int [bridge_line, dog_line] (ustr ''SS'')) = []"
    by (simp add: retained_pair surviving_pair)
  have r: "retained ascii_int [bridge_line, dog_line] (ustr ''SS'') \<noteq> []"
    by (simp add: retained_pair)
  from empty SS_requested r s
  have "corpora_get two_corpora (str_nat (length (ustr ''SS''))) (ustr ''SS'') = Some []"
    by blast
  then have ss: "corpora_get two_corpora (ustr ''2'') (ustr ''SS'') = Some []"
    by (simp add: attractors_SS)
  from get have "corpora_get two_corpora (ustr ''2'') (ustr ''PS'') =
      (if ustr ''2'' = str_nat (length (ustr ''PS'')) \<and> ustr ''PS'' \<in> set default_subtasks \<and>
          retained ascii_int [bridge_line, dog_line] (ustr ''PS'') \<noteq> []
       then Some (surviving ascii_int (\<lambda>s. s) walk_table
                    (retained ascii_int [bridge_line, dog_line] (ustr ''PS'')))
       else None)"
    by blast
  then have ps: "corpora_get two_corpora (ustr ''2'') (ustr ''PS'') = Some [bridge_example]"
    using PS_requested by (simp add: retained_pair surviving_pair attractors_PS)
  have none: "retained ascii_int [bridge_line, dog_line] (ustr ''SP'') = []"
    using conditions_differ
    by (simp add: retained_def rows_def parse_bridge_line bridge_row_condition
        parse_dog_line dog_row_condition ustr_def)
  from get have "corpora_get two_corpora (ustr ''2'') (ustr ''SP'') =
      (if ustr ''2'' = str_nat (length (ustr ''SP'')) \<and> ustr ''SP'' \<in> set default_subtasks \<and>
          retained ascii_int [bridge_line, dog_line] (ustr ''SP'') \<noteq> []
       then Some (surviving ascii_int (\<lambda>s. s) walk_table
                    (retained ascii_int [bridge_line, dog_line] (ustr ''SP'')))
       else None)"
    by blast
  then have sp: "corpora_get two_corpora (ustr ''2'') (ustr ''SP'') = None"
    by (simp add: none)
  from only k c have key: "ustr ''2'' = str_nat (length (ustr ''SS''))"
    by blast
  from pair_build SS_requested s ss ps sp k c key show ?thesis
    by (simp add: retained_pair)
qed

text \<open>
  The claim as stated makes every requested condition without surviving examples
  absent. The build below retains one row of condition PS whose verb has no entry in
  the table: PS is present, with an empty corpus.
\<close>

theorem empty_corpus_present:
  "ustr ''PS'' \<in> set default_subtasks
   \<and> create_corpora ascii_int be_plural (\<lambda>s. s) (Some be_vocab) (Some [header_line, bridge_line])
        (Some be_wiki) default_subtasks None
       = Inr [(ustr ''2'', [(ustr ''PS'', [])])]"
  using be_build PS_requested by (simp add: empty_corpora_def)

text \<open>
  Claim C7. With a cap \<open>N\<close>, a number of items and so not negative, every corpus of
  the output consists of the first \<open>N\<close> of the examples that survive for its condition, in
  the order of the rows of the file, and its length is the minimum of \<open>N\<close> and the
  number of those examples.
\<close>

theorem items_per_subtask_truncates:
  assumes "create_corpora py_int pl ud vocab (Some (header # lines)) wiki subtasks (Some N) = Inr corpora"
    and "0 \<le> N" and "(k, inner) \<in> set corpora" and "(c, corpus) \<in> set inner"
  shows "\<exists>table. create_verb_inflections pl vocab wiki = Inr table \<and>
           corpus = take (nat N) (surviving py_int ud table (retained py_int lines c)) \<and>
           length corpus = min (nat N) (length (surviving py_int ud table (retained py_int lines c)))"
proof -
  from create_corpora_entry [OF assms(1,3,4)] obtain table where
    "create_verb_inflections pl vocab wiki = Inr table"
    "corpus = py_slice_to (surviving py_int ud table (retained py_int lines c)) N"
    by auto
  with assms(2) show ?thesis
    by (auto simp: py_slice_to_nonneg)
qed

theorem items_per_subtask_truncates_witness:
  "create_corpora ascii_int walk_plural (\<lambda>s. s) (Some walk_vocab)
     (Some (header_line # [bridge_line, bridge_line]))
     (Some walk_wiki) default_subtasks (Some 1) = Inr walk_corpora
   \<and> (0::int) \<le> 1
   \<and> (ustr ''2'', [(ustr ''PS'', [bridge_example])]) \<in> set walk_corpora
   \<and> (ustr ''PS'', [bridge_example]) \<in> set [(ustr ''PS'', [bridge_example])]
   \<and> surviving ascii_int (\<lambda>s. s) walk_table (retained ascii_int [bridge_line, bridge_line] (ustr ''PS''))
       = [bridge_example, bridge_example]
   \<and> [bridge_example] =
       take (nat 1)
         (surviving ascii_int (\<lambda>s. s) walk_table (retained ascii_int [bridge_line, bridge_line] (ustr ''PS'')))
   \<and> length [bridge_example] =
       min (nat 1)
         (length (surviving ascii_int (\<lambda>s. s) walk_table
            (retained ascii_int [bridge_line, bridge_line] (ustr ''PS''))))"
proof -
  have k: "(ustr ''2'', [(ustr ''PS'', [bridge_example])]) \<in> set walk_corpora"
    by (simp add: walk_corpora_def)
  have c: "(ustr ''PS'', [bridge_example]) \<in> set [(ustr ''PS'', [bridge_example])]"
    by simp
  have n: "(0::int) \<le> 1" by simp
  have s: "surviving ascii_int (\<lambda>s. s) walk_table (retained ascii_int [bridge_line, bridge_line] (ustr ''PS''))
      = [bridge_example, bridge_example]"
    by (simp add: retained_two surviving_def example_of_def bridge_walk_example)
  from items_per_subtask_truncates [OF walk_build_two n k c] walk_inflections
  have "[bridge_example] =
       take (nat 1)
         (surviving ascii_int (\<lambda>s. s) walk_table (retained ascii_int [bridge_line, bridge_line] (ustr ''PS'')))"
    and "length [bridge_example] =
       min (nat 1)
         (length (surviving ascii_int (\<lambda>s. s) walk_table
            (retained ascii_int [bridge_line, bridge_line] (ustr ''PS''))))"
    by auto
  with walk_build_two n k c s show ?thesis by blast
qed

text \<open>
  Claim C9. Without a cap, a retained item whose verb has no entry in the table yields
  no example and no exception, and the length of the corpus of a condition is the number
  of its retained items less the number of those among them whose verb has no entry.
\<close>

theorem missing_inflection_excluded:
  assumes "create_corpora py_int pl ud vocab (Some (header # lines)) wiki subtasks None = Inr corpora"
    and "(k, inner) \<in> set corpora" and "(c, corpus) \<in> set inner"
  shows "\<exists>table. create_verb_inflections pl vocab wiki = Inr table \<and>
           length corpus =
             length (retained py_int lines c)
               - length (filter (\<lambda>item. table (verb item) = None) (retained py_int lines c)) \<and>
           (\<forall>item \<in> set (retained py_int lines c).
              table (verb item) = None \<longrightarrow> item_to_example py_int ud item table = Inr None)"
proof -
  from create_corpora_entry [OF assms] obtain table where
    table: "create_verb_inflections pl vocab wiki = Inr table"
    and corpus: "corpus = surviving py_int ud table (retained py_int lines c)"
    by auto
  have len: "length corpus = length (retained py_int lines c)
      - length (filter (\<lambda>item. table (verb item) = None) (retained py_int lines c))"
    unfolding corpus by (rule length_surviving [OF retained_index])
  have none: "\<forall>item \<in> set (retained py_int lines c).
      table (verb item) = None \<longrightarrow> item_to_example py_int ud item table = Inr None"
  proof (intro ballI impI)
    fix item
    assume "item \<in> set (retained py_int lines c)" and t: "table (verb item) = None"
    with retained_index obtain vi where vi: "py_int (verb_index item) = Some vi"
      by blast
    from item_to_example_total [where py_int = py_int, OF vi]
      example_of_None [where py_int = py_int, OF vi] t
    show "item_to_example py_int ud item table = Inr None" by simp
  qed
  from table len none show ?thesis by blast
qed

theorem missing_inflection_excluded_witness:
  "create_corpora ascii_int be_plural (\<lambda>s. s) (Some be_vocab) (Some (header_line # [bridge_line]))
     (Some be_wiki) default_subtasks None = Inr empty_corpora
   \<and> (ustr ''2'', [(ustr ''PS'', [])]) \<in> set empty_corpora
   \<and> (ustr ''PS'', []) \<in> set [(ustr ''PS'', [] :: Corpus)]
   \<and> bridge_row \<in> set (retained ascii_int [bridge_line] (ustr ''PS''))
   \<and> be_table (verb bridge_row) = None
   \<and> item_to_example ascii_int (\<lambda>s. s) bridge_row be_table = Inr None
   \<and> length ([] :: Corpus) =
       length (retained ascii_int [bridge_line] (ustr ''PS''))
         - length (filter (\<lambda>item. be_table (verb item) = None)
             (retained ascii_int [bridge_line] (ustr ''PS'')))"
proof -
  have k: "(ustr ''2'', [(ustr ''PS'', [])]) \<in> set empty_corpora"
    by (simp add: empty_corpora_def)
  have c: "(ustr ''PS'', []) \<in> set [(ustr ''PS'', [] :: Corpus)]"
    by simp
  have r: "bridge_row \<in> set (retained ascii_int [bridge_line] (ustr ''PS''))"
    by (simp add: retained_one)
  have t: "be_table (verb bridge_row) = None"
    by (simp add: be_table_def bridge_row_def ustr_def)
  from missing_inflection_excluded [OF be_build k c] be_inflections
  have len: "length ([] :: Corpus) =
       length (retained ascii_int [bridge_line] (ustr ''PS''))
         - length (filter (\<lambda>item. be_table (verb item) = None)
             (retained ascii_int [bridge_line] (ustr ''PS'')))"
    and none: "\<forall>item \<in> set (retained ascii_int [bridge_line] (ustr ''PS'')).
      be_table (verb item) = None \<longrightarrow> item_to_example ascii_int (\<lambda>s. s) item be_table = Inr None"
    by auto
  from none r t have "item_to_example ascii_int (\<lambda>s. s) bridge_row be_table = Inr None"
    by blast
  with be_build k c r t len show ?thesis by blast
qed

text \<open>
  Claim C10. \<open>initialize\<close> without the argument \<open>items_per_subtask\<close> is \<open>initialize\<close>
  with the cap 1000: every corpus holds the first 1000 surviving examples of its condition
  and so at most 1000. Passing \<open>None\<close> builds the same conditions without a cap, every
  corpus holding all the surviving examples.
\<close>

theorem initialize_default_cap:
  assumes "initialize py_int pl ud vocab (Some (header # lines)) wiki subtasks Omitted = Inr capped"
    and "(k, inner) \<in> set capped" and "(c, corpus) \<in> set inner"
  shows "\<exists>table full.
           create_verb_inflections pl vocab wiki = Inr table \<and>
           corpus = take 1000 (surviving py_int ud table (retained py_int lines c)) \<and>
           length corpus \<le> 1000 \<and>
           initialize py_int pl ud vocab (Some (header # lines)) wiki subtasks Omitted =
             initialize py_int pl ud vocab (Some (header # lines)) wiki subtasks (Passed (Some 1000)) \<and>
           initialize py_int pl ud vocab (Some (header # lines)) wiki subtasks (Passed None) = Inr full \<and>
           (\<forall>k' inner' c' corpus'.
              (k', inner') \<in> set full \<and> (c', corpus') \<in> set inner' \<longrightarrow>
                corpus' = surviving py_int ud table (retained py_int lines c'))"
proof -
  define st where "st = (case subtasks of None \<Rightarrow> default_subtasks
      | Some [] \<Rightarrow> default_subtasks | Some (s # ss) \<Rightarrow> s # ss)"
  have init: "\<And>a. initialize py_int pl ud vocab (Some (header # lines)) wiki subtasks a =
      create_corpora py_int pl ud vocab (Some (header # lines)) wiki st
        (case a of Omitted \<Rightarrow> Some 1000 | Passed n \<Rightarrow> n)"
    by (simp add: initialize_def st_def Let_def)
  have cap: "create_corpora py_int pl ud vocab (Some (header # lines)) wiki st (Some 1000) = Inr capped"
    using assms(1) by (simp add: init)
  from create_corpora_entry [OF cap assms(2,3)] obtain table where
    table: "create_verb_inflections pl vocab wiki = Inr table"
    and slice: "corpus = py_slice_to (surviving py_int ud table (retained py_int lines c)) 1000"
    by auto
  from slice have corpus: "corpus = take 1000 (surviving py_int ud table (retained py_int lines c))"
    by (simp add: py_slice_to_nonneg)
  from create_corpora_total [OF cap, of None] obtain full where
    full: "create_corpora py_int pl ud vocab (Some (header # lines)) wiki st None = Inr full"
    by blast
  have all: "\<forall>k' inner' c' corpus'.
      (k', inner') \<in> set full \<and> (c', corpus') \<in> set inner' \<longrightarrow>
        corpus' = surviving py_int ud table (retained py_int lines c')"
    using create_corpora_entry [OF full] table by fastforce
  have "length corpus \<le> 1000" unfolding corpus by simp
  with table corpus full all show ?thesis
    by (auto simp: init)
qed

lemma raw_corpora_loop_replicate:
  "raw_corpora_loop ascii_int default_subtasks (replicate n bridge_line) [(ustr ''PS'', items)] =
     Inr [(ustr ''PS'', items @ replicate n bridge_row)]"
proof (induction n arbitrary: items)
  case 0
  show ?case by simp
next
  case (Suc n)
  from Suc [of "items @ [bridge_row]"] show ?case
    by (simp add: parse_bridge_line bridge_row_condition PS_requested replicate_app_Cons_same)
qed

lemma raw_replicate:
  "create_raw_corpora ascii_int (Some (header_line # replicate (Suc n) bridge_line))
     default_subtasks = Inr [(ustr ''PS'', replicate (Suc n) bridge_row)]"
  using raw_corpora_loop_replicate [of n "[bridge_row]"]
  by (simp add: create_raw_corpora_def parse_bridge_line bridge_row_condition PS_requested)

lemma surviving_replicate:
  "surviving ascii_int (\<lambda>s. s) walk_table (replicate n bridge_row) = replicate n bridge_example"
  by (induction n) (simp_all add: surviving_def example_of_def bridge_walk_example)

lemma bridge_row_index: "ascii_int (verb_index bridge_row) \<noteq> None"
  using bridge_row_condition by (rule classified_index)

lemma create_corpus_replicate:
  "create_corpus ascii_int (\<lambda>s. s) (replicate n bridge_row) walk_table cap =
     Inr (case cap of None \<Rightarrow> replicate n bridge_example
          | Some N \<Rightarrow> py_slice_to (replicate n bridge_example) N)"
proof -
  have "\<forall>item \<in> set (replicate n bridge_row). ascii_int (verb_index item) \<noteq> None"
    using bridge_row_index by simp
  from create_corpus_surviving [OF this] show ?thesis
    by (cases cap) (simp_all add: surviving_replicate)
qed

lemma big_build:
  "create_corpora ascii_int walk_plural (\<lambda>s. s) (Some walk_vocab)
     (Some (header_line # replicate (Suc n) bridge_line)) (Some walk_wiki) default_subtasks cap
     = Inr [(ustr ''2'', [(ustr ''PS'',
              case cap of None \<Rightarrow> replicate (Suc n) bridge_example
              | Some N \<Rightarrow> py_slice_to (replicate (Suc n) bridge_example) N)])]"
  by (simp only: create_corpora_def raw_replicate walk_inflections sum.case corpora_loop.simps
      create_corpus_replicate Let_def attractors_PS setdefault_set.simps)

theorem initialize_default_cap_witness:
  "initialize ascii_int walk_plural (\<lambda>s. s) (Some walk_vocab)
     (Some (header_line # replicate 1001 bridge_line)) (Some walk_wiki) None Omitted
     = Inr [(ustr ''2'', [(ustr ''PS'', replicate 1000 bridge_example)])]
   \<and> (ustr ''2'', [(ustr ''PS'', replicate 1000 bridge_example)])
        \<in> set [(ustr ''2'', [(ustr ''PS'', replicate 1000 bridge_example)])]
   \<and> (ustr ''PS'', replicate 1000 bridge_example)
        \<in> set [(ustr ''PS'', replicate 1000 bridge_example)]
   \<and> length (replicate 1000 bridge_example) \<le> 1000
   \<and> initialize ascii_int walk_plural (\<lambda>s. s) (Some walk_vocab)
        (Some (header_line # replicate 1001 bridge_line)) (Some walk_wiki) None Omitted =
      initialize ascii_int walk_plural (\<lambda>s. s) (Some walk_vocab)
        (Some (header_line # replicate 1001 bridge_line)) (Some walk_wiki) None
        (Passed (Some 1000))
   \<and> initialize ascii_int walk_plural (\<lambda>s. s) (Some walk_vocab)
        (Some (header_line # replicate 1001 bridge_line)) (Some walk_wiki) None (Passed None)
       = Inr [(ustr ''2'', [(ustr ''PS'', replicate 1001 bridge_example)])]
   \<and> length (replicate 1001 bridge_example) = 1001
   \<and> initialize ascii_int walk_plural (\<lambda>s. s) (Some walk_vocab)
        (Some (header_line # replicate 1001 bridge_line)) (Some walk_wiki) None Omitted \<noteq>
      initialize ascii_int walk_plural (\<lambda>s. s) (Some walk_vocab)
        (Some (header_line # replicate 1001 bridge_line)) (Some walk_wiki) None (Passed None)"
proof -
  have n: "(1001::nat) = Suc 1000" by simp
  have cut: "py_slice_to (replicate (Suc 1000) bridge_example) 1000 = replicate 1000 bridge_example"
    by (simp add: py_slice_to_def slice_bound_def)
  have i: "initialize ascii_int walk_plural (\<lambda>s. s) (Some walk_vocab)
     (Some (header_line # replicate 1001 bridge_line)) (Some walk_wiki) None Omitted
     = Inr [(ustr ''2'', [(ustr ''PS'', replicate 1000 bridge_example)])]"
    unfolding n using big_build [of 1000 "Some 1000"] cut by (simp add: initialize_def)
  have p: "initialize ascii_int walk_plural (\<lambda>s. s) (Some walk_vocab)
        (Some (header_line # replicate 1001 bridge_line)) (Some walk_wiki) None (Passed None)
       = Inr [(ustr ''2'', [(ustr ''PS'', replicate 1001 bridge_example)])]"
    unfolding n using big_build [of 1000 None] by (simp add: initialize_def)
  have k: "(ustr ''2'', [(ustr ''PS'', replicate 1000 bridge_example)])
        \<in> set [(ustr ''2'', [(ustr ''PS'', replicate 1000 bridge_example)])]"
    by simp
  have c: "(ustr ''PS'', replicate 1000 bridge_example)
        \<in> set [(ustr ''PS'', replicate 1000 bridge_example)]"
    by simp
  from initialize_default_cap [OF i k c]
  have le: "length (replicate 1000 bridge_example) \<le> 1000"
    and same: "initialize ascii_int walk_plural (\<lambda>s. s) (Some walk_vocab)
        (Some (header_line # replicate 1001 bridge_line)) (Some walk_wiki) None Omitted =
      initialize ascii_int walk_plural (\<lambda>s. s) (Some walk_vocab)
        (Some (header_line # replicate 1001 bridge_line)) (Some walk_wiki) None
        (Passed (Some 1000))"
    by blast+
  have len: "length (replicate 1001 bridge_example) = 1001" by simp
  have "replicate 1000 bridge_example \<noteq> replicate 1001 bridge_example"
    by (metis length_replicate n n_not_Suc_n)
  then have diff: "initialize ascii_int walk_plural (\<lambda>s. s) (Some walk_vocab)
        (Some (header_line # replicate 1001 bridge_line)) (Some walk_wiki) None Omitted \<noteq>
      initialize ascii_int walk_plural (\<lambda>s. s) (Some walk_vocab)
        (Some (header_line # replicate 1001 bridge_line)) (Some walk_wiki) None (Passed None)"
    unfolding i p by simp
  from i k c le same p len diff show ?thesis by blast
qed

end
